theory Spec2Isabelle
  imports Main
begin

section \<open>Python values, dictionaries and exceptions\<close>

text \<open>
  The exceptions that can reach the \<^verbatim>\<open>except Exception\<close> clauses of \<^verbatim>\<open>vector_store.py\<close>:
  a missing attribute, an index out of range, and the errors raised by the embedding
  model and by the vector database.
\<close>

datatype py_error = AttributeError | IndexError | EmbeddingError | StoreError

text \<open>Metadata values are strings and integers; \<open>PNone\<close> is what \<^verbatim>\<open>dict.get\<close> gives for a missing key.\<close>

datatype pyval = PNone | PStr string | PInt int

type_synonym metadata = "(string \<times> pyval) list"

definition md_get :: "metadata \<Rightarrow> string \<Rightarrow> pyval" where
  \<comment> \<open>\<^verbatim>\<open>metadata.get(key)\<close>\<close>
  "md_get m k = (case map_of m k of None \<Rightarrow> PNone | Some v \<Rightarrow> v)"

definition md_get_default :: "metadata \<Rightarrow> string \<Rightarrow> pyval \<Rightarrow> pyval" where
  \<comment> \<open>\<^verbatim>\<open>metadata.get(key, default)\<close>\<close>
  "md_get_default m k d = (case map_of m k of None \<Rightarrow> d | Some v \<Rightarrow> v)"

fun dict_set :: "string \<Rightarrow> pyval \<Rightarrow> metadata \<Rightarrow> metadata" where
  "dict_set k v [] = [(k, v)]"
| "dict_set k v ((k', v') # d) = (if k' = k then (k, v) # d else (k', v') # dict_set k v d)"

definition dict_update :: "metadata \<Rightarrow> metadata \<Rightarrow> metadata" where
  \<comment> \<open>\<^verbatim>\<open>d.update(e)\<close>\<close>
  "dict_update d e = fold (\<lambda>(k, v). dict_set k v) e d"

definition or_default :: "string option \<Rightarrow> string \<Rightarrow> string" where
  \<comment> \<open>\<^verbatim>\<open>x or default\<close> on an optional string: \<^verbatim>\<open>None\<close> and \<^verbatim>\<open>""\<close> are both falsy\<close>
  "or_default x d = (case x of None \<Rightarrow> d | Some s \<Rightarrow> if s = [] then d else s)"

definition py_nth :: "'a list \<Rightarrow> nat \<Rightarrow> py_error + 'a" where
  \<comment> \<open>\<^verbatim>\<open>xs[i]\<close> for a non-negative index\<close>
  "py_nth xs i = (if i < length xs then Inr (xs ! i) else Inl IndexError)"

fun map_result :: "('a \<Rightarrow> py_error + 'b) \<Rightarrow> 'a list \<Rightarrow> py_error + 'b list" where
  \<comment> \<open>a loop appending one value per element, left at the first exception\<close>
  "map_result f [] = Inr []"
| "map_result f (x # xs) =
     (case f x of
        Inl e \<Rightarrow> Inl e
      | Inr y \<Rightarrow> (case map_result f xs of Inl e \<Rightarrow> Inl e | Inr ys \<Rightarrow> Inr (y # ys)))"

text \<open>Decimal formatting of a non-negative integer inside an f-string.\<close>

definition digit_char :: "nat \<Rightarrow> char" where
  "digit_char d = ''0123456789'' ! d"

fun str_nat :: "nat \<Rightarrow> string" where
  "str_nat n = (if n < 10 then [digit_char n] else str_nat (n div 10) @ [digit_char (n mod 10)])"

declare str_nat.simps [simp del]

section \<open>The third-party interface\<close>

text \<open>
  The embedding model and the ChromaDB collections are libraries outside the repository.
  The facade reaches them through \<^verbatim>\<open>embedding_model.encode\<close>, \<^verbatim>\<open>collection.add\<close>,
  \<^verbatim>\<open>collection.query\<close>, \<^verbatim>\<open>collection.delete\<close> and \<^verbatim>\<open>collection.get\<close>; these five calls
  are a parameter of the model. Each may raise; a call that raises leaves the collection as
  it was. \<open>'c\<close> is the state of a collection, \<open>'e\<close> an embedding vector, \<open>'f\<close> the number
  type of distances.
\<close>

record 'f query_result =
  qr_ids :: "string list list"
  qr_documents :: "string list list"
  qr_metadatas :: "metadata list list"
  qr_distances :: "'f list list"

record get_result =
  gr_ids :: "string list"
  gr_metadatas :: "metadata list"
  gr_documents :: "string list"

record ('c, 'e, 'f) backend =
  encode :: "string \<Rightarrow> py_error + 'e"
  coll_add :: "'c \<Rightarrow> 'e list \<Rightarrow> metadata list \<Rightarrow> string list \<Rightarrow> string list \<Rightarrow> py_error + 'c"
  coll_query :: "'c \<Rightarrow> 'e list \<Rightarrow> int \<Rightarrow> metadata option \<Rightarrow> py_error + 'f query_result"
  coll_delete :: "'c \<Rightarrow> metadata \<Rightarrow> py_error + 'c"
  coll_get :: "'c \<Rightarrow> metadata option \<Rightarrow> py_error + get_result"

section \<open>The \<^verbatim>\<open>VectorStore\<close> class\<close>

text \<open>
  The attributes \<^verbatim>\<open>__init__\<close> and \<^verbatim>\<open>_initialize_chromadb\<close> assign. The embedding model and
  the client are the \<open>backend\<close>; the object owns the two collections.
\<close>

record 'c VectorStore =
  persist_directory :: string
  contract_collection :: 'c
  policy_collection :: 'c

definition collection_attr :: "'c VectorStore \<Rightarrow> string \<Rightarrow> py_error + 'c" where
  \<comment> \<open>reading an attribute of \<^verbatim>\<open>self\<close> as a collection: only two attributes hold one\<close>
  "collection_attr vs name =
     (if name = ''contract_collection'' then Inr (contract_collection vs)
      else if name = ''policy_collection'' then Inr (policy_collection vs)
      else Inl AttributeError)"

definition select_collection :: "'c VectorStore \<Rightarrow> string \<Rightarrow> 'c" where
  \<comment> \<open>\<^verbatim>\<open>self.contract_collection if t == "contract" else self.policy_collection\<close>\<close>
  "select_collection vs t = (if t = ''contract'' then contract_collection vs else policy_collection vs)"

definition put_collection :: "'c VectorStore \<Rightarrow> string \<Rightarrow> 'c \<Rightarrow> 'c VectorStore" where
  \<comment> \<open>the collection selected that way, after a call that changed it in place\<close>
  "put_collection vs t c =
     (if t = ''contract'' then vs\<lparr>contract_collection := c\<rparr> else vs\<lparr>policy_collection := c\<rparr>)"

definition generate_embedding :: "('c, 'e, 'f) backend \<Rightarrow> string \<Rightarrow> py_error + 'e" where
  \<comment> \<open>the \<^verbatim>\<open>except\<close> clause logs and re-raises\<close>
  "generate_embedding L txt = (case encode L txt of Inl e \<Rightarrow> Inl e | Inr embedding \<Rightarrow> Inr embedding)"

definition where_document_id :: "string \<Rightarrow> metadata" where
  \<comment> \<open>\<^verbatim>\<open>{"document_id": document_id}\<close>\<close>
  "where_document_id document_id = [(''document_id'', PStr document_id)]"

definition delete_document_chunks ::
  "('c, 'e, 'f) backend \<Rightarrow> 'c VectorStore \<Rightarrow> string \<Rightarrow> string \<Rightarrow> bool \<times> 'c VectorStore" where
  \<comment> \<open>\<^verbatim>\<open>_delete_document_chunks\<close>\<close>
  "delete_document_chunks L vs document_id document_type =
     (let collection = select_collection vs document_type in
      (case coll_delete L collection (where_document_id document_id) of
         Inl e \<Rightarrow> (False, vs)
       | Inr collection' \<Rightarrow> (True, put_collection vs document_type collection')))"

definition chunk_id_of :: "string \<Rightarrow> nat \<Rightarrow> string" where
  \<comment> \<open>\<^verbatim>\<open>f"{document_id}_chunk_{i}"\<close>\<close>
  "chunk_id_of document_id i = document_id @ ''_chunk_'' @ str_nat i"

definition chunk_metadata ::
  "string \<Rightarrow> string \<Rightarrow> string \<Rightarrow> string option \<Rightarrow> string option \<Rightarrow> string option \<Rightarrow>
   nat \<Rightarrow> string \<Rightarrow> metadata" where
  "chunk_metadata document_id document_name document_type clause_type risk_level policy_id i chunk =
     (let metadata =
        [(''document_id'', PStr document_id),
         (''document_name'', PStr document_name),
         (''document_type'', PStr document_type),
         (''chunk_index'', PInt (int i)),
         (''chunk_length'', PInt (int (length chunk))),
         (''section_label'', PStr (''chunk_'' @ str_nat (i + 1)))]
      in if document_type = ''policy''
         then dict_update metadata
                [(''clause_type'', PStr (or_default clause_type ''general'')),
                 (''risk_level'', PStr (or_default risk_level ''medium'')),
                 (''policy_id'', PStr (or_default policy_id document_id))]
         else metadata)"

definition chunk_entry ::
  "('c, 'e, 'f) backend \<Rightarrow> string \<Rightarrow> string \<Rightarrow> string \<Rightarrow> string option \<Rightarrow> string option \<Rightarrow>
   string option \<Rightarrow> nat \<times> string \<Rightarrow> py_error + ('e \<times> metadata \<times> string)" where
  \<comment> \<open>one pass of the loop over \<^verbatim>\<open>enumerate(chunks)\<close>: what is appended to the three lists\<close>
  "chunk_entry L document_id document_name document_type clause_type risk_level policy_id ic =
     (case ic of (i, chunk) \<Rightarrow>
        (case generate_embedding L chunk of
           Inl e \<Rightarrow> Inl e
         | Inr embedding \<Rightarrow>
             Inr (embedding,
                  chunk_metadata document_id document_name document_type clause_type risk_level
                    policy_id i chunk,
                  chunk_id_of document_id i)))"

definition add_document_chunks ::
  "('c, 'e, 'f) backend \<Rightarrow> 'c VectorStore \<Rightarrow> string \<Rightarrow> string \<Rightarrow> string list \<Rightarrow> string \<Rightarrow>
   string option \<Rightarrow> string option \<Rightarrow> string option \<Rightarrow> bool \<times> 'c VectorStore" where
  "add_document_chunks L vs document_id document_name chunks document_type clause_type risk_level
     policy_id =
     (let vs1 = snd (delete_document_chunks L vs document_id document_type) in
      if chunks = [] then (True, vs1)
      else
        (let collection = select_collection vs1 document_type in
         (case map_result
                 (chunk_entry L document_id document_name document_type clause_type risk_level
                    policy_id)
                 (enumerate 0 chunks) of
            Inl e \<Rightarrow> (False, vs1)
          | Inr entries \<Rightarrow>
              (let embeddings = map fst entries;
                   metadatas = map (fst \<circ> snd) entries;
                   ids = map (snd \<circ> snd) entries
               in (case coll_add L collection embeddings metadatas ids chunks of
                     Inl e \<Rightarrow> (False, vs1)
                   | Inr collection' \<Rightarrow> (True, put_collection vs1 document_type collection'))))))"

record 'f search_hit =
  hit_chunk_id :: string
  hit_text :: string
  hit_metadata :: metadata
  similarity_score :: 'f
  distance :: 'f
  hit_collection_type :: string

definition format_result ::
  "('f::{one,minus}) query_result \<Rightarrow> string \<Rightarrow> nat \<Rightarrow> py_error + 'f search_hit" where
  \<comment> \<open>the dictionary built for index \<open>i\<close>; every subscript may raise\<close>
  "format_result results collection_type i =
     (case py_nth (qr_ids results) 0 of Inl e \<Rightarrow> Inl e | Inr ids0 \<Rightarrow>
     (case py_nth ids0 i of Inl e \<Rightarrow> Inl e | Inr cid \<Rightarrow>
     (case py_nth (qr_documents results) 0 of Inl e \<Rightarrow> Inl e | Inr docs0 \<Rightarrow>
     (case py_nth docs0 i of Inl e \<Rightarrow> Inl e | Inr doc \<Rightarrow>
     (case py_nth (qr_metadatas results) 0 of Inl e \<Rightarrow> Inl e | Inr metas0 \<Rightarrow>
     (case py_nth metas0 i of Inl e \<Rightarrow> Inl e | Inr meta \<Rightarrow>
     (case py_nth (qr_distances results) 0 of Inl e \<Rightarrow> Inl e | Inr dists0 \<Rightarrow>
     (case py_nth dists0 i of Inl e \<Rightarrow> Inl e | Inr d \<Rightarrow>
        Inr \<lparr>hit_chunk_id = cid, hit_text = doc, hit_metadata = meta,
             similarity_score = 1 - d, distance = d,
             hit_collection_type = collection_type\<rparr>))))))))"

definition format_results ::
  "('f::{one,minus}) query_result \<Rightarrow> string \<Rightarrow> py_error + 'f search_hit list" where
  \<comment> \<open>\<^verbatim>\<open>if results['ids'] and results['ids'][0]: for i in range(len(results['ids'][0])): ...\<close>\<close>
  "format_results results collection_type =
     (case qr_ids results of
        [] \<Rightarrow> Inr []
      | ids0 # _ \<Rightarrow>
          if ids0 = [] then Inr []
          else map_result (format_result results collection_type) [0..<length ids0])"

definition where_clause_of :: "string option \<Rightarrow> metadata option" where
  \<comment> \<open>\<^verbatim>\<open>where_clause = None; if document_id: where_clause = {"document_id": document_id}\<close>\<close>
  "where_clause_of document_id =
     (case document_id of
        None \<Rightarrow> None
      | Some d \<Rightarrow> if d = [] then None else Some (where_document_id d))"

definition search_chunks ::
  "('c, 'e, 'f::{one,minus}) backend \<Rightarrow> 'c VectorStore \<Rightarrow> string \<Rightarrow> string option \<Rightarrow> int \<Rightarrow>
   string \<Rightarrow> 'f search_hit list" where
  "search_chunks L vs query document_id top_k collection_type =
     (case generate_embedding L query of
        Inl e \<Rightarrow> []
      | Inr query_embedding \<Rightarrow>
          (let where_clause = where_clause_of document_id;
               collection = select_collection vs collection_type
           in (case coll_query L collection [query_embedding] top_k where_clause of
                 Inl e \<Rightarrow> []
               | Inr results \<Rightarrow>
                   (case format_results results collection_type of
                      Inl e \<Rightarrow> []
                    | Inr formatted_results \<Rightarrow> formatted_results))))"

record 'f policy_aware_result =
  contract_chunks :: "'f search_hit list"
  policy_chunks :: "'f search_hit list"
  pa_query :: string

definition search_policy_aware ::
  "('c, 'e, 'f::{one,minus}) backend \<Rightarrow> 'c VectorStore \<Rightarrow> string \<Rightarrow> string option \<Rightarrow> int \<Rightarrow>
   int \<Rightarrow> 'f policy_aware_result" where
  \<comment> \<open>\<^verbatim>\<open>search_chunks\<close> returns a list on every path, so the \<^verbatim>\<open>except\<close> clause is never entered\<close>
  "search_policy_aware L vs query document_id contract_top_k policy_top_k =
     (let contract_chunks = search_chunks L vs query document_id contract_top_k ''contract'';
          policy_chunks = search_chunks L vs query None policy_top_k ''policy''
      in \<lparr>contract_chunks = contract_chunks, policy_chunks = policy_chunks, pa_query = query\<rparr>)"

record doc_info =
  di_chunk_count :: int
  di_document_name :: pyval
  di_document_id :: "string option"

definition get_document_info ::
  "('c, 'e, 'f) backend \<Rightarrow> 'c VectorStore \<Rightarrow> string \<Rightarrow> doc_info" where
  \<comment> \<open>reads \<^verbatim>\<open>self.collection\<close>, an attribute the class never assigns; \<open>di_document_id = None\<close>
      is a dictionary without that key; the set of names is read in first-seen order\<close>
  "get_document_info L vs document_id =
     (case collection_attr vs ''collection'' of
        Inl e \<Rightarrow> \<lparr>di_chunk_count = 0, di_document_name = PNone, di_document_id = None\<rparr>
      | Inr collection \<Rightarrow>
          (case coll_get L collection (Some (where_document_id document_id)) of
             Inl e \<Rightarrow> \<lparr>di_chunk_count = 0, di_document_name = PNone, di_document_id = None\<rparr>
           | Inr results \<Rightarrow>
               if gr_ids results = []
               then \<lparr>di_chunk_count = 0, di_document_name = PNone, di_document_id = None\<rparr>
               else
                 let document_names =
                       rev (remdups (rev (map (\<lambda>m. md_get m ''document_name'') (gr_metadatas results))))
                 in \<lparr>di_chunk_count = int (length (gr_ids results)),
                     di_document_name = (case document_names of [] \<Rightarrow> PNone | n # _ \<Rightarrow> n),
                     di_document_id = Some document_id\<rparr>))"

record doc_summary =
  sum_document_id :: pyval
  sum_document_name :: pyval
  sum_document_type :: string
  sum_chunk_count :: int
  sum_clause_type :: "pyval option"
  sum_risk_level :: "pyval option"
  sum_policy_id :: "pyval option"

definition seed_summary :: "metadata \<Rightarrow> string \<Rightarrow> doc_summary" where
  \<comment> \<open>the dictionary stored at the first chunk of a \<^verbatim>\<open>doc_id\<close>; the three policy keys exist
      only when \<^verbatim>\<open>doc_type == "policy"\<close>\<close>
  "seed_summary m doc_type =
     (let doc_id = md_get m ''document_id'' in
      \<lparr>sum_document_id = doc_id,
       sum_document_name = md_get m ''document_name'',
       sum_document_type = doc_type,
       sum_chunk_count = 0,
       sum_clause_type =
         (if doc_type = ''policy'' then Some (md_get_default m ''clause_type'' (PStr ''general'')) else None),
       sum_risk_level =
         (if doc_type = ''policy'' then Some (md_get_default m ''risk_level'' (PStr ''medium'')) else None),
       sum_policy_id =
         (if doc_type = ''policy'' then Some (md_get_default m ''policy_id'' doc_id) else None)\<rparr>)"

fun bump_count :: "pyval \<Rightarrow> (pyval \<times> doc_summary) list \<Rightarrow> (pyval \<times> doc_summary) list" where
  \<comment> \<open>\<^verbatim>\<open>documents[doc_id]["chunk_count"] += 1\<close>\<close>
  "bump_count k [] = []"
| "bump_count k ((k', s) # ds) =
     (if k' = k then (k', s\<lparr>sum_chunk_count := sum_chunk_count s + 1\<rparr>) # ds
      else (k', s) # bump_count k ds)"

fun group_loop :: "metadata list \<Rightarrow> string \<Rightarrow> (pyval \<times> doc_summary) list \<Rightarrow> (pyval \<times> doc_summary) list" where
  \<comment> \<open>the loop of \<^verbatim>\<open>_group_documents_by_id\<close> over \<^verbatim>\<open>results['metadatas']\<close>; \<open>documents\<close> is the
      dictionary, in insertion order\<close>
  "group_loop [] doc_type documents = documents"
| "group_loop (m # ms) doc_type documents =
     (let doc_id = md_get m ''document_id'';
          documents1 = (if doc_id \<notin> set (map fst documents)
                        then documents @ [(doc_id, seed_summary m doc_type)]
                        else documents)
      in group_loop ms doc_type (bump_count doc_id documents1))"

definition group_documents_by_id :: "get_result \<Rightarrow> string \<Rightarrow> doc_summary list" where
  \<comment> \<open>\<^verbatim>\<open>_group_documents_by_id\<close>\<close>
  "group_documents_by_id results doc_type = map snd (group_loop (gr_metadatas results) doc_type [])"

definition list_collection ::
  "('c, 'e, 'f) backend \<Rightarrow> 'c \<Rightarrow> string \<Rightarrow> py_error + doc_summary list" where
  \<comment> \<open>one of the two blocks of \<^verbatim>\<open>list_documents\<close>: what it extends \<^verbatim>\<open>documents\<close> with\<close>
  "list_collection L collection doc_type =
     (case coll_get L collection None of
        Inl e \<Rightarrow> Inl e
      | Inr results \<Rightarrow>
          Inr (if gr_ids results \<noteq> [] then group_documents_by_id results doc_type else []))"

definition list_documents ::
  "('c, 'e, 'f) backend \<Rightarrow> 'c VectorStore \<Rightarrow> string option \<Rightarrow> doc_summary list" where
  "list_documents L vs document_type =
     (case (if document_type = None \<or> document_type = Some ''contract''
            then list_collection L (contract_collection vs) ''contract'' else Inr []) of
        Inl e \<Rightarrow> []
      | Inr contract_docs \<Rightarrow>
          (case (if document_type = None \<or> document_type = Some ''policy''
                 then list_collection L (policy_collection vs) ''policy'' else Inr []) of
             Inl e \<Rightarrow> []
           | Inr policy_docs \<Rightarrow> contract_docs @ policy_docs))"

section \<open>The HTTP handlers of \<^verbatim>\<open>vector_service.py\<close>\<close>

datatype http_error = HTTPException nat

record document_info_response =
  resp_document_id :: string
  resp_document_name :: pyval
  resp_chunk_count :: int
  resp_document_type :: "string option"

definition get_document_info_endpoint ::
  "('c, 'e, 'f) backend \<Rightarrow> 'c VectorStore \<Rightarrow> string \<Rightarrow> http_error + document_info_response" where
  \<comment> \<open>the handler \<^verbatim>\<open>get_document_info\<close> of the service\<close>
  "get_document_info_endpoint L vs document_id =
     (let doc_info = get_document_info L vs document_id in
      Inr \<lparr>resp_document_id = document_id,
           resp_document_name = di_document_name doc_info,
           resp_chunk_count = di_chunk_count doc_info,
           resp_document_type = None\<rparr>)"

record delete_response =
  del_success :: bool
  del_message :: string

definition delete_document ::
  "('c, 'e, 'f) backend \<Rightarrow> 'c VectorStore \<Rightarrow> string \<Rightarrow> (http_error + delete_response) \<times> 'c VectorStore" where
  \<comment> \<open>calls \<^verbatim>\<open>_delete_document_chunks(document_id)\<close>: \<^verbatim>\<open>document_type\<close> keeps its default\<close>
  "delete_document L vs document_id =
     (case delete_document_chunks L vs document_id ''contract'' of
        (success, vs') \<Rightarrow>
          if success
          then (Inr \<lparr>del_success = True,
                     del_message = ''Deleted chunks for document: '' @ document_id\<rparr>, vs')
          else (Inl (HTTPException 500), vs'))"

section \<open>A reference store\<close>

text \<open>
  Modelled from the spec: the ChromaDB collection, which is a library outside the
  repository. A collection is the list of its records in insertion order. \<open>add\<close> upserts by
  id, \<open>delete\<close> removes every record matching the filter, \<open>get\<close> returns the matching
  records, \<open>query\<close> ranks the matching records by distance to the query vector and returns
  the first \<open>top_k\<close>. None of the four raises.
\<close>

record 'e chunk_record =
  rec_id :: string
  rec_embedding :: 'e
  rec_metadata :: metadata
  rec_document :: string

type_synonym 'e collection = "'e chunk_record list"

definition matches :: "metadata \<Rightarrow> metadata \<Rightarrow> bool" where
  \<comment> \<open>Modelled from the spec: a record matches a filter when its metadata has every
      key of the filter with the same value\<close>
  "matches w m = list_all (\<lambda>kv. map_of m (fst kv) = Some (snd kv)) w"

definition matches_opt :: "metadata option \<Rightarrow> metadata \<Rightarrow> bool" where
  "matches_opt w m = (case w of None \<Rightarrow> True | Some w' \<Rightarrow> matches w' m)"

definition upsert :: "'e chunk_record \<Rightarrow> 'e collection \<Rightarrow> 'e collection" where
  \<comment> \<open>Modelled from the spec: the record replaces any record with the same id\<close>
  "upsert r c = filter (\<lambda>x. rec_id x \<noteq> rec_id r) c @ [r]"

definition make_records ::
  "'e list \<Rightarrow> metadata list \<Rightarrow> string list \<Rightarrow> string list \<Rightarrow> 'e chunk_record list" where
  "make_records embeddings metadatas ids documents =
     map (\<lambda>(i, e, m, d). \<lparr>rec_id = i, rec_embedding = e, rec_metadata = m, rec_document = d\<rparr>)
       (zip ids (zip embeddings (zip metadatas documents)))"

definition store_add ::
  "'e collection \<Rightarrow> 'e list \<Rightarrow> metadata list \<Rightarrow> string list \<Rightarrow> string list \<Rightarrow>
   py_error + 'e collection" where
  \<comment> \<open>Modelled from the spec: \<^verbatim>\<open>add(collection, chunks)\<close> of the external store, "upserts"\<close>
  "store_add c embeddings metadatas ids documents =
     Inr (fold upsert (make_records embeddings metadatas ids documents) c)"

definition store_delete :: "'e collection \<Rightarrow> metadata \<Rightarrow> py_error + 'e collection" where
  \<comment> \<open>Modelled from the spec: \<^verbatim>\<open>delete(collection, filter)\<close> of the external store,
      "removes all records matching filter"\<close>
  "store_delete c w = Inr (filter (\<lambda>r. \<not> matches w (rec_metadata r)) c)"

definition store_get :: "'e collection \<Rightarrow> metadata option \<Rightarrow> py_error + get_result" where
  \<comment> \<open>Modelled from the spec: \<^verbatim>\<open>get(collection, filter?)\<close> of the external store,
      "all matching records"\<close>
  "store_get c w =
     (let rs = filter (\<lambda>r. matches_opt w (rec_metadata r)) c in
      Inr \<lparr>gr_ids = map rec_id rs, gr_metadatas = map rec_metadata rs,
           gr_documents = map rec_document rs\<rparr>)"

definition nearest ::
  "('e \<Rightarrow> 'e \<Rightarrow> 'f::linorder) \<Rightarrow> 'e collection \<Rightarrow> int \<Rightarrow> metadata option \<Rightarrow> 'e \<Rightarrow>
   'e chunk_record list" where
  \<comment> \<open>Modelled from the spec: the ranking of \<^verbatim>\<open>query\<close>, the \<open>top_k\<close> matching records nearest
      to the query vector (ties in insertion order, nothing for a bound that is not positive)\<close>
  "nearest dist c n_results w q =
     take (nat n_results)
       (sort_key (\<lambda>r. dist q (rec_embedding r)) (filter (\<lambda>r. matches_opt w (rec_metadata r)) c))"

definition store_query ::
  "('e \<Rightarrow> 'e \<Rightarrow> 'f::linorder) \<Rightarrow> 'e collection \<Rightarrow> 'e list \<Rightarrow> int \<Rightarrow> metadata option \<Rightarrow>
   py_error + 'f query_result" where
  \<comment> \<open>Modelled from the spec: \<^verbatim>\<open>query(collection, query_vector, top_k, filter?)\<close> of the
      external store, one row of ids, texts, metadata and distances per query vector\<close>
  "store_query dist c query_embeddings n_results w =
     Inr \<lparr>qr_ids = map (\<lambda>q. map rec_id (nearest dist c n_results w q)) query_embeddings,
          qr_documents = map (\<lambda>q. map rec_document (nearest dist c n_results w q)) query_embeddings,
          qr_metadatas = map (\<lambda>q. map rec_metadata (nearest dist c n_results w q)) query_embeddings,
          qr_distances =
            map (\<lambda>q. map (\<lambda>r. dist q (rec_embedding r)) (nearest dist c n_results w q))
              query_embeddings\<rparr>"

definition reference_store ::
  "(string \<Rightarrow> py_error + 'e) \<Rightarrow> ('e \<Rightarrow> 'e \<Rightarrow> 'f::linorder) \<Rightarrow> ('e collection, 'e, 'f) backend" where
  "reference_store enc dist =
     \<lparr>encode = enc, coll_add = store_add, coll_query = store_query dist,
      coll_delete = store_delete, coll_get = store_get\<rparr>"

definition all_records :: "'e collection \<Rightarrow> get_result" where
  \<comment> \<open>what \<^verbatim>\<open>collection.get()\<close> returns: every record, in insertion order\<close>
  "all_records c =
     \<lparr>gr_ids = map rec_id c, gr_metadatas = map rec_metadata c, gr_documents = map rec_document c\<rparr>"

definition hit_of :: "('e \<Rightarrow> 'e \<Rightarrow> 'f::{one,minus}) \<Rightarrow> 'e \<Rightarrow> string \<Rightarrow> 'e chunk_record \<Rightarrow> 'f search_hit" where
  \<comment> \<open>the result dictionary of \<open>search_chunks\<close> for a record the query returned\<close>
  "hit_of dist q collection_type r =
     \<lparr>hit_chunk_id = rec_id r, hit_text = rec_document r, hit_metadata = rec_metadata r,
      similarity_score = 1 - dist q (rec_embedding r), distance = dist q (rec_embedding r),
      hit_collection_type = collection_type\<rparr>"

abbreviation stored_or :: "metadata \<Rightarrow> string \<Rightarrow> pyval \<Rightarrow> pyval" where
  \<comment> \<open>the value stored in a metadata dictionary under a key, or \<open>d\<close> when the key is missing\<close>
  "stored_or m k d \<equiv> (case map_of m k of None \<Rightarrow> d | Some v \<Rightarrow> v)"

definition has_doc :: "string \<Rightarrow> 'e chunk_record \<Rightarrow> bool" where
  \<comment> \<open>the record is stored under \<open>document_id\<close>\<close>
  "has_doc document_id r = matches (where_document_id document_id) (rec_metadata r)"

section \<open>Example instances\<close>

text \<open>
  Small concrete backends on which the statements below are evaluated: an embedder that
  maps a text to its length, with the absolute difference as distance, over the reference
  store.
\<close>

definition example_encode :: "string \<Rightarrow> py_error + nat" where
  "example_encode s = Inr (length s)"

definition example_dist :: "nat \<Rightarrow> nat \<Rightarrow> int" where
  "example_dist a b = \<bar>int a - int b\<bar>"

definition example_backend :: "(nat collection, nat, int) backend" where
  "example_backend = reference_store example_encode example_dist"

definition empty_store :: "nat collection VectorStore" where
  "empty_store =
     \<lparr>persist_directory = ''./chroma_db'', contract_collection = [], policy_collection = []\<rparr>"

definition example_store :: "nat collection VectorStore" where
  \<comment> \<open>two contract documents \<^verbatim>\<open>D\<close> and \<^verbatim>\<open>E\<close> and one policy document \<^verbatim>\<open>P\<close>\<close>
  "example_store =
     snd (add_document_chunks example_backend
       (snd (add_document_chunks example_backend
         (snd (add_document_chunks example_backend empty_store
                 ''D'' ''Deal'' [''a'', ''bbbb''] ''contract'' None None None))
         ''E'' ''Else'' [''cc''] ''contract'' None None None))
       ''P'' ''Rules'' [''ddd'', ''e''] ''policy'' None None None)"

definition supplied_store :: "nat collection VectorStore" where
  \<comment> \<open>the example store with a policy document \<^verbatim>\<open>Q\<close> added with the three policy arguments
      supplied and a document \<^verbatim>\<open>M\<close> added with the type \<^verbatim>\<open>memo\<close>\<close>
  "supplied_store =
     snd (add_document_chunks example_backend
       (snd (add_document_chunks example_backend example_store
               ''Q'' ''Quality'' [''x'', ''yy''] ''policy''
               (Some ''liability'') (Some ''high'') (Some ''POL-7'')))
       ''M'' ''Memo'' [''mm''] ''memo'' None None None)"

definition disagreeing_records :: "nat collection" where
  \<comment> \<open>two records of one document whose metadata disagree\<close>
  "disagreeing_records =
     [\<lparr>rec_id = ''Q_chunk_0'', rec_embedding = 1,
       rec_metadata = [(''document_id'', PStr ''Q''), (''document_name'', PStr ''Quality''),
                       (''clause_type'', PStr ''liability''), (''risk_level'', PStr ''high''),
                       (''policy_id'', PStr ''POL-7'')],
       rec_document = ''x''\<rparr>,
      \<lparr>rec_id = ''Q_chunk_1'', rec_embedding = 2,
       rec_metadata = [(''document_id'', PStr ''Q''), (''document_name'', PStr ''Other''),
                       (''clause_type'', PStr ''termination''), (''risk_level'', PStr ''low''),
                       (''policy_id'', PStr ''POL-8'')],
       rec_document = ''yy''\<rparr>]"

text \<open>
  Two backends with faults. In \<open>strict_backend\<close> the query raises when \<open>n_results\<close> is not
  positive and behaves like the reference store otherwise. In \<open>failing_backend\<close> every
  collection call raises and the embedder raises on the empty text.
\<close>

definition strict_backend :: "(nat collection, nat, int) backend" where
  "strict_backend =
     \<lparr>encode = example_encode, coll_add = store_add,
      coll_query = (\<lambda>c qs n w. if n \<le> 0 then Inl StoreError else store_query example_dist c qs n w),
      coll_delete = store_delete, coll_get = store_get\<rparr>"

definition failing_backend :: "(nat collection, nat, int) backend" where
  "failing_backend =
     \<lparr>encode = (\<lambda>s. if s = [] then Inl EmbeddingError else Inr (length s)),
      coll_add = (\<lambda>c es ms ids ds. Inl StoreError),
      coll_query = (\<lambda>c qs n w. Inl StoreError),
      coll_delete = (\<lambda>c w. Inl StoreError),
      coll_get = (\<lambda>c w. Inl StoreError)\<rparr>"

section \<open>Basic facts\<close>

lemma collection_attr_collection: "collection_attr vs ''collection'' = Inl AttributeError"
  by (simp add: collection_attr_def)


subsection \<open>Decimal formatting is injective\<close>

lemma digit_char_inj: "a < 10 \<Longrightarrow> b < 10 \<Longrightarrow> digit_char a = digit_char b \<Longrightarrow> a = b"
proof -
  assume a: "a < 10" and b: "b < 10" and e: "digit_char a = digit_char b"
  have d: "distinct ''0123456789''" by simp
  have l: "length ''0123456789'' = 10" by simp
  from e have "''0123456789'' ! a = ''0123456789'' ! b" by (simp only: digit_char_def)
  with d a b l show "a = b" by (simp only: nth_eq_iff_index_eq)
qed

lemma str_nat_nonempty: "str_nat n \<noteq> []"
  by (subst str_nat.simps) simp

lemma str_nat_nonempty_sym: "[] \<noteq> str_nat n"
  using str_nat_nonempty [of n] by simp

lemma str_nat_small: "n < 10 \<Longrightarrow> str_nat n = [digit_char n]"
  by (subst str_nat.simps) simp

lemma str_nat_large: "\<not> n < 10 \<Longrightarrow> str_nat n = str_nat (n div 10) @ [digit_char (n mod 10)]"
  by (subst str_nat.simps) simp

lemma str_nat_inj: "str_nat n = str_nat m \<Longrightarrow> n = m"
proof (induction n arbitrary: m rule: str_nat.induct)
  case (1 n)
  show ?case
  proof (cases "n < 10")
    case True
    note n = this
    show ?thesis
    proof (cases "m < 10")
      case True
      with n "1.prems" show ?thesis by (simp add: str_nat_small digit_char_inj)
    next
      case False
      with n "1.prems" show ?thesis by (simp add: str_nat_small str_nat_large str_nat_nonempty str_nat_nonempty_sym)
    qed
  next
    case False
    note n = this
    show ?thesis
    proof (cases "m < 10")
      case True
      with n "1.prems" show ?thesis
        by (simp add: str_nat_small str_nat_large str_nat_nonempty str_nat_nonempty_sym)
    next
      case False
      with n "1.prems" have e: "str_nat (n div 10) = str_nat (m div 10)"
        and d: "digit_char (n mod 10) = digit_char (m mod 10)"
        by (simp_all add: str_nat_large)
      from "1.IH" [OF n e] have q: "n div 10 = m div 10" .
      from d have r: "n mod 10 = m mod 10" by (rule digit_char_inj [rotated 2]) simp_all
      from q r show ?thesis by (metis div_mult_mod_eq)
    qed
  qed
qed

lemma chunk_id_of_inj: "chunk_id_of d i = chunk_id_of d j \<Longrightarrow> i = j"
  by (simp add: chunk_id_of_def str_nat_inj)

lemma map_result_all_Inr:
  "(\<And>x. x \<in> set xs \<Longrightarrow> f x = Inr (g x)) \<Longrightarrow> map_result f xs = Inr (map g xs)"
  by (induction xs) simp_all

lemma map_result_Inr_D:
  "map_result f xs = Inr ys \<Longrightarrow> map Inr ys = map f xs"
  by (induction xs arbitrary: ys) (auto split: sum.splits)

lemma map_result_Inl_iff:
  "isl (map_result f xs) \<longleftrightarrow> (\<exists>x \<in> set xs. isl (f x))"
  by (induction xs) (auto split: sum.splits)

lemma fold_upsert:
  "distinct (map rec_id rs) \<Longrightarrow>
   fold upsert rs c = filter (\<lambda>x. rec_id x \<notin> rec_id ` set rs) c @ rs"
proof (induction rs arbitrary: c)
  case Nil
  then show ?case by simp
next
  case (Cons r rs)
  from Cons.prems have d: "distinct (map rec_id rs)" and n: "rec_id r \<notin> rec_id ` set rs"
    by simp_all
  have "fold upsert (r # rs) c = fold upsert rs (upsert r c)" by simp
  also have "\<dots> = filter (\<lambda>x. rec_id x \<notin> rec_id ` set rs) (upsert r c) @ rs"
    by (rule Cons.IH [OF d])
  also have "\<dots> = filter (\<lambda>x. rec_id x \<notin> rec_id ` set (r # rs)) c @ r # rs"
    using n by (auto simp: upsert_def intro: filter_cong)
  finally show ?case .
qed


lemma upsert_distinct: "distinct (map rec_id c) \<Longrightarrow> distinct (map rec_id (upsert r c))"
  by (auto simp: upsert_def distinct_map_filter)

lemma store_keeps_ids_distinct:
  assumes "distinct (map rec_id c)"
  shows "store_add c es ms ids ds = Inr c' \<Longrightarrow> distinct (map rec_id c')"
    and "store_delete c w = Inr c' \<Longrightarrow> distinct (map rec_id c')"
proof -
  have "distinct (map rec_id (fold upsert rs c))" for rs
    using assms by (induction rs arbitrary: c) (simp_all add: upsert_distinct)
  then show "store_add c es ms ids ds = Inr c' \<Longrightarrow> distinct (map rec_id c')"
    by (auto simp: store_add_def)
  from assms show "store_delete c w = Inr c' \<Longrightarrow> distinct (map rec_id c')"
    by (auto simp: store_delete_def distinct_map_filter)
qed

lemma select_put [simp]: "select_collection (put_collection vs t c) t = c"
  by (simp add: select_collection_def put_collection_def)

lemma chunk_entry_pair:
  "chunk_entry L d n t ct rl pid (i, c) =
     (case encode L c of
        Inl e \<Rightarrow> Inl e
      | Inr e \<Rightarrow> Inr (e, chunk_metadata d n t ct rl pid i c, chunk_id_of d i))"
  by (simp add: chunk_entry_def generate_embedding_def split: sum.splits)

lemma entries_props:
  "map_result (chunk_entry L d n t ct rl pid) (enumerate k chunks) = Inr entries \<Longrightarrow>
     map (snd \<circ> snd) entries = map (\<lambda>(i, c). chunk_id_of d i) (enumerate k chunks) \<and>
     map (fst \<circ> snd) entries =
       map (\<lambda>(i, c). chunk_metadata d n t ct rl pid i c) (enumerate k chunks) \<and>
     map Inr (map fst entries) = map (encode L) chunks"
proof (induction chunks arbitrary: k entries)
  case Nil
  then show ?case by simp
next
  case (Cons c cs)
  from Cons.prems obtain e es where
    e: "encode L c = Inr e" and
    es: "map_result (chunk_entry L d n t ct rl pid) (enumerate (Suc k) cs) = Inr es" and
    en: "entries = (e, chunk_metadata d n t ct rl pid k c, chunk_id_of d k) # es"
    by (auto simp: chunk_entry_pair split: sum.splits)
  from Cons.IH [OF es] e en show ?case
    by simp
qed

lemma has_doc_chunk_metadata:
  "matches (where_document_id d) (chunk_metadata d n t ct rl pid i c)"
  by (simp add: matches_def where_document_id_def chunk_metadata_def dict_update_def Let_def)

lemma reference_store_sel:
  "encode (reference_store enc dist) = enc"
  "coll_add (reference_store enc dist) = store_add"
  "coll_query (reference_store enc dist) = store_query dist"
  "coll_delete (reference_store enc dist) = store_delete"
  "coll_get (reference_store enc dist) = store_get"
  by (simp_all add: reference_store_def)

lemma has_doc_iff: "has_doc d r = (map_of (rec_metadata r) ''document_id'' = Some (PStr d))"
  by (simp add: has_doc_def matches_def where_document_id_def)

lemma delete_reference:
  "delete_document_chunks (reference_store enc dist) vs d t =
     (True, put_collection vs t (filter (\<lambda>r. \<not> has_doc d r) (select_collection vs t)))"
  by (simp add: delete_document_chunks_def reference_store_sel store_delete_def has_doc_def)

lemma make_records_maps:
  "length es = length ids \<Longrightarrow> length ms = length ids \<Longrightarrow> length ds = length ids \<Longrightarrow>
   map rec_id (make_records es ms ids ds) = ids \<and>
   map rec_embedding (make_records es ms ids ds) = es \<and>
   map rec_metadata (make_records es ms ids ds) = ms \<and>
   map rec_document (make_records es ms ids ds) = ds"
proof (induction ids arbitrary: es ms ds)
  case Nil
  then show ?case by (simp add: make_records_def)
next
  case (Cons i ids)
  then obtain e es' m ms' d ds' where "es = e # es'" "ms = m # ms'" "ds = d # ds'"
    by (cases es; cases ms; cases ds) auto
  with Cons show ?case by (simp add: make_records_def)
qed


lemma enumerate_ids:
  "map (\<lambda>(i, c). chunk_id_of d i) (enumerate 0 chunks) = map (chunk_id_of d) [0..<length chunks]"
proof -
  have "map (\<lambda>(i, c). chunk_id_of d i) (enumerate 0 chunks)
        = map (chunk_id_of d \<circ> fst) (enumerate 0 chunks)"
    by (rule map_cong) auto
  also have "\<dots> = map (chunk_id_of d) (map fst (enumerate 0 chunks))"
    by (simp only: map_map)
  also have "\<dots> = map (chunk_id_of d) [0..<0 + length chunks]"
    by (simp only: map_fst_enumerate)
  finally show ?thesis by (simp only: add_0)
qed

lemma distinct_chunk_ids: "distinct (map (chunk_id_of d) [0..<k])"
  by (simp add: distinct_map inj_on_def) (blast dest: chunk_id_of_inj)

lemma add_reference_success:
  assumes ok: "add_document_chunks (reference_store enc dist) vs d n chunks t ct rl pid = (True, vs')"
  shows "\<exists>recs.
     vs' = put_collection vs t
             (filter (\<lambda>x. rec_id x \<notin> rec_id ` set recs)
                (filter (\<lambda>r. \<not> has_doc d r) (select_collection vs t)) @ recs) \<and>
     map rec_id recs = map (chunk_id_of d) [0..<length chunks] \<and>
     map rec_metadata recs = map (\<lambda>(i, c). chunk_metadata d n t ct rl pid i c) (enumerate 0 chunks) \<and>
     map rec_document recs = chunks \<and>
     map (\<lambda>r. Inr (rec_embedding r)) recs = map enc chunks"
proof (cases "chunks = []")
  case True
  with ok have "vs' = put_collection vs t (filter (\<lambda>r. \<not> has_doc d r) (select_collection vs t))"
    by (simp add: add_document_chunks_def delete_reference)
  with True show ?thesis by (intro exI [of _ "[]"]) simp
next
  case False
  let ?R = "reference_store enc dist"
  let ?c1 = "filter (\<lambda>r. \<not> has_doc d r) (select_collection vs t)"
  let ?vs1 = "put_collection vs t ?c1"
  from ok False obtain entries where
    en: "map_result (chunk_entry ?R d n t ct rl pid) (enumerate 0 chunks) = Inr entries"
    by (auto simp: add_document_chunks_def delete_reference Let_def split: sum.splits)
  let ?es = "map fst entries" and ?ms = "map (fst \<circ> snd) entries" and ?ids = "map (snd \<circ> snd) entries"
  let ?recs = "make_records ?es ?ms ?ids chunks"
  from entries_props [OF en] have
    ids: "?ids = map (chunk_id_of d) [0..<length chunks]" and
    ms: "?ms = map (\<lambda>(i, c). chunk_metadata d n t ct rl pid i c) (enumerate 0 chunks)" and
    es: "map Inr ?es = map enc chunks"
    by (simp_all add: enumerate_ids reference_store_sel)
  from ids have len: "length entries = length chunks"
    by (metis length_map length_upt minus_nat.diff_0)
  have mr: "map rec_id ?recs = ?ids \<and> map rec_embedding ?recs = ?es \<and>
            map rec_metadata ?recs = ?ms \<and> map rec_document ?recs = chunks"
    by (rule make_records_maps) (simp_all add: len)
  then have dis: "distinct (map rec_id ?recs)"
    by (simp add: ids distinct_chunk_ids)
  from ok False en have "vs' = put_collection ?vs1 t (fold upsert ?recs ?c1)"
    by (simp add: add_document_chunks_def delete_reference Let_def reference_store_sel store_add_def)
  then have vs': "vs' = put_collection vs t (filter (\<lambda>x. rec_id x \<notin> rec_id ` set ?recs) ?c1 @ ?recs)"
    by (simp add: fold_upsert [OF dis] put_collection_def)
  have emb: "map (\<lambda>r. Inr (rec_embedding r)) ?recs = map enc chunks"
  proof -
    have a: "map (\<lambda>r. Inr (rec_embedding r)) ?recs = map Inr (map rec_embedding ?recs)"
      by (simp add: comp_def)
    from mr have b: "map rec_embedding ?recs = ?es" by blast
    show ?thesis unfolding a b by (rule es)
  qed
  from vs' mr ids ms emb show ?thesis
    by (intro exI [of _ ?recs]) simp
qed

lemma recs_have_doc:
  assumes "map rec_metadata recs = map (\<lambda>(i, c). chunk_metadata d n t ct rl pid i c) (enumerate 0 chunks)"
  shows "\<forall>r \<in> set recs. has_doc d r"
proof
  fix r assume "r \<in> set recs"
  then have "rec_metadata r \<in> set (map rec_metadata recs)" by simp
  with assms obtain i c where "rec_metadata r = chunk_metadata d n t ct rl pid i c"
    by auto
  then show "has_doc d r" by (simp add: has_doc_def has_doc_chunk_metadata)
qed

lemma filter_distinct_nth:
  "distinct (map f xs) \<Longrightarrow> i < length xs \<Longrightarrow> filter (\<lambda>x. f x = f (xs ! i)) xs = [xs ! i]"
proof (induction xs arbitrary: i)
  case Nil
  then show ?case by simp
next
  case (Cons x xs)
  show ?case
  proof (cases i)
    case 0
    from Cons.prems have "\<forall>y \<in> set xs. f y \<noteq> f x" by (metis distinct.simps(2) image_eqI list.simps(9) set_map)
    then have "filter (\<lambda>y. f y = f x) xs = []" by (simp add: filter_empty_conv)
    with 0 show ?thesis by simp
  next
    case (Suc j)
    with Cons.prems have j: "j < length xs" and d: "distinct (map f xs)" by simp_all
    from Cons.prems j have "f x \<noteq> f (xs ! j)" by auto
    with Cons.IH [OF d j] Suc show ?thesis by simp
  qed
qed

lemma md_get_chunk_metadata:
  "md_get (chunk_metadata d n t ct rl pid i c) ''document_id'' = PStr d"
  "md_get (chunk_metadata d n t ct rl pid i c) ''document_name'' = PStr n"
  "md_get (chunk_metadata d n t ct rl pid i c) ''document_type'' = PStr t"
  "md_get (chunk_metadata d n t ct rl pid i c) ''chunk_index'' = PInt (int i)"
  "md_get (chunk_metadata d n t ct rl pid i c) ''chunk_length'' = PInt (int (length c))"
  "md_get (chunk_metadata d n t ct rl pid i c) ''section_label'' = PStr (''chunk_'' @ str_nat (i + 1))"
  by (simp_all add: md_get_def chunk_metadata_def dict_update_def Let_def)

lemma policy_chunk_metadata:
  "map_of (chunk_metadata d n ''policy'' ct rl pid i c) ''clause_type'' = Some (PStr (or_default ct ''general''))"
  "map_of (chunk_metadata d n ''policy'' ct rl pid i c) ''risk_level'' = Some (PStr (or_default rl ''medium''))"
  "map_of (chunk_metadata d n ''policy'' ct rl pid i c) ''policy_id'' = Some (PStr (or_default pid d))"
  by (simp_all add: chunk_metadata_def dict_update_def Let_def)

lemma other_chunk_metadata:
  assumes "t \<noteq> ''policy''"
  shows "map_of (chunk_metadata d n t ct rl pid i c) ''clause_type'' = None"
    and "map_of (chunk_metadata d n t ct rl pid i c) ''risk_level'' = None"
    and "map_of (chunk_metadata d n t ct rl pid i c) ''policy_id'' = None"
  using assms by (simp_all add: chunk_metadata_def Let_def)

lemma or_default_None: "or_default None x = x"
  by (simp add: or_default_def)

subsection \<open>Formatting and searching\<close>

lemma format_result_fields:
  assumes "format_result res ct i = Inr h"
  shows "similarity_score h = 1 - distance h"
    and "hit_collection_type h = ct"
    and "\<And>ds. py_nth (qr_distances res) 0 = Inr ds \<Longrightarrow> i < length ds \<and> distance h = ds ! i"
  using assms
  by (auto simp: format_result_def py_nth_def split: sum.splits if_splits)

lemma map_result_length: "map_result f xs = Inr ys \<Longrightarrow> length ys = length xs"
  by (induction xs arbitrary: ys) (auto split: sum.splits)

lemma map_result_nth:
  "map_result f xs = Inr ys \<Longrightarrow> i < length xs \<Longrightarrow> f (xs ! i) = Inr (ys ! i)"
proof (induction xs arbitrary: ys i)
  case Nil
  then show ?case by simp
next
  case (Cons x xs)
  then show ?case by (cases i) (auto split: sum.splits)
qed

lemma map_result_set:
  "map_result f xs = Inr ys \<Longrightarrow> y \<in> set ys \<Longrightarrow> \<exists>x \<in> set xs. f x = Inr y"
  by (induction xs arbitrary: ys) (auto split: sum.splits)

lemma format_results_cases:
  assumes "format_results res ct = Inr hs"
  shows "hs = [] \<or> (\<exists>ids0 rest. qr_ids res = ids0 # rest \<and>
           map_result (format_result res ct) [0..<length ids0] = Inr hs)"
  using assms by (auto simp: format_results_def split: list.splits if_splits)

lemma format_results_similarity:
  assumes "format_results res ct = Inr hs"
  shows "list_all (\<lambda>h. similarity_score h = 1 - distance h) hs"
proof -
  from format_results_cases [OF assms] show ?thesis
  proof
    assume "hs = []" then show ?thesis by simp
  next
    assume "\<exists>ids0 rest. qr_ids res = ids0 # rest \<and>
           map_result (format_result res ct) [0..<length ids0] = Inr hs"
    then obtain ids0 :: "string list" where m: "map_result (format_result res ct) [0..<length ids0] = Inr hs"
      by blast
    show ?thesis
      unfolding list_all_iff
    proof
      fix h assume "h \<in> set hs"
      from map_result_set [OF m this] obtain i where "format_result res ct i = Inr h" by blast
      then show "similarity_score h = 1 - distance h" by (rule format_result_fields)
    qed
  qed
qed

lemma format_results_distances:
  assumes f: "format_results res ct = Inr hs" and ds: "py_nth (qr_distances res) 0 = Inr ds"
  shows "map distance hs = take (length hs) ds"
proof -
  from format_results_cases [OF f] show ?thesis
  proof
    assume "hs = []" then show ?thesis by simp
  next
    assume "\<exists>ids0 rest. qr_ids res = ids0 # rest \<and>
           map_result (format_result res ct) [0..<length ids0] = Inr hs"
    then obtain ids0 :: "string list" where m: "map_result (format_result res ct) [0..<length ids0] = Inr hs"
      by blast
    from map_result_length [OF m] have len: "length hs = length ids0" by simp
    have each: "i < length ds \<and> distance (hs ! i) = ds ! i" if "i < length hs" for i
    proof -
      from that len have i: "i < length [0..<length ids0]" by simp
      from map_result_nth [OF m i] that len have "format_result res ct i = Inr (hs ! i)" by simp
      from format_result_fields(3) [OF this ds] show ?thesis .
    qed
    have le: "length hs \<le> length ds"
    proof (cases "length hs")
      case 0
      then show ?thesis by simp
    next
      case (Suc k)
      then have "k < length hs" by simp
      from each [OF this] Suc show ?thesis by simp
    qed
    from le have l: "length (map distance hs) = length (take (length hs) ds)" by simp
    show ?thesis
      by (rule nth_equalityI [OF l]) (simp add: each)
  qed
qed

lemma search_chunks_unfold:
  "search_chunks L vs q d k ct =
     (case encode L q of
        Inl e \<Rightarrow> []
      | Inr qe \<Rightarrow>
          (case coll_query L (select_collection vs ct) [qe] k (where_clause_of d) of
             Inl e \<Rightarrow> []
           | Inr res \<Rightarrow> (case format_results res ct of Inl e \<Rightarrow> [] | Inr hs \<Rightarrow> hs)))"
  by (simp add: search_chunks_def generate_embedding_def Let_def split: sum.splits)

lemma map_result_upt:
  assumes "\<And>i. i < length xs \<Longrightarrow> f i = Inr (g (xs ! i))"
  shows "map_result f [0..<length xs] = Inr (map g xs)"
proof -
  have "map_result f [0..<length xs] = Inr (map (\<lambda>i. g (xs ! i)) [0..<length xs])"
    by (rule map_result_all_Inr) (simp add: assms)
  moreover have "map (\<lambda>i. g (xs ! i)) [0..<length xs] = map g xs"
    by (rule nth_equalityI) simp_all
  ultimately show ?thesis by simp
qed

lemma format_results_reference:
  "format_results
     \<lparr>qr_ids = [map rec_id N], qr_documents = [map rec_document N],
      qr_metadatas = [map rec_metadata N],
      qr_distances = [map (\<lambda>r. dist qe (rec_embedding r)) N]\<rparr> ct
   = Inr (map (hit_of dist qe ct) N)"
proof (cases "N = []")
  case True
  then show ?thesis by (simp add: format_results_def)
next
  case False
  let ?res = "\<lparr>qr_ids = [map rec_id N], qr_documents = [map rec_document N],
      qr_metadatas = [map rec_metadata N],
      qr_distances = [map (\<lambda>r. dist qe (rec_embedding r)) N]\<rparr>"
  have "map_result (format_result ?res ct) [0..<length N] = Inr (map (hit_of dist qe ct) N)"
    by (rule map_result_upt) (simp add: format_result_def py_nth_def hit_of_def)
  with False show ?thesis by (simp add: format_results_def)
qed

lemma search_chunks_reference:
  "search_chunks (reference_store enc dist) vs q d k ct =
     (case enc q of
        Inl e \<Rightarrow> []
      | Inr qe \<Rightarrow>
          map (hit_of dist qe ct) (nearest dist (select_collection vs ct) k (where_clause_of d) qe))"
  by (simp add: search_chunks_unfold reference_store_sel store_query_def format_results_reference
      split: sum.splits)

lemma nearest_length: "length (nearest dist c k w qe) \<le> nat k"
  by (simp add: nearest_def)

lemma nearest_subset:
  "r \<in> set (nearest dist c k w qe) \<Longrightarrow> r \<in> set c \<and> matches_opt w (rec_metadata r)"
  by (auto simp: nearest_def dest!: in_set_takeD)

lemma nearest_filtered:
  "nearest dist c k (Some (where_document_id x)) qe = nearest dist (filter (has_doc x) c) k None qe"
  by (simp add: nearest_def matches_opt_def has_doc_def)

lemma where_clause_of_cases:
  "where_clause_of None = None"
  "where_clause_of (Some []) = None"
  "x \<noteq> [] \<Longrightarrow> where_clause_of (Some x) = Some (where_document_id x)"
  by (simp_all add: where_clause_of_def)

lemma search_chunks_where:
  "where_clause_of d = where_clause_of d' \<Longrightarrow>
   search_chunks L vs q d k ct = search_chunks L vs q d' k ct"
  by (simp add: search_chunks_def Let_def split: sum.splits)

lemma search_hits_from_collection:
  assumes "h \<in> set (search_chunks (reference_store enc dist) vs q d k ct)"
  shows "\<exists>r \<in> set (select_collection vs ct).
            hit_chunk_id h = rec_id r \<and> hit_text h = rec_document r \<and>
            hit_metadata h = rec_metadata r \<and> hit_collection_type h = ct \<and>
            (\<forall>x. d = Some x \<and> x \<noteq> [] \<longrightarrow> has_doc x r)"
proof -
  from assms obtain qe r where
    r: "r \<in> set (nearest dist (select_collection vs ct) k (where_clause_of d) qe)" and
    h: "h = hit_of dist qe ct r"
    by (auto simp: search_chunks_reference split: sum.splits)
  from nearest_subset [OF r] have
    m: "r \<in> set (select_collection vs ct)" and w: "matches_opt (where_clause_of d) (rec_metadata r)"
    by simp_all
  have "\<forall>x. d = Some x \<and> x \<noteq> [] \<longrightarrow> has_doc x r"
    using w by (auto simp: where_clause_of_cases matches_opt_def has_doc_def)
  with m h show ?thesis by (auto simp: hit_of_def)
qed

lemma search_chunks_length: "length (search_chunks (reference_store enc dist) vs q d k ct) \<le> nat k"
  by (simp add: search_chunks_reference nearest_length split: sum.splits)

subsection \<open>Errors of the backend\<close>

lemma add_fails_on_embedding:
  assumes "chunks \<noteq> []" and "\<exists>c \<in> set chunks. isl (encode L c)"
  shows "fst (add_document_chunks L vs d n chunks t ct rl pid) = False"
proof -
  from assms(2) obtain c where c: "c \<in> set chunks" "isl (encode L c)" by blast
  then obtain i where "i < length chunks" "chunks ! i = c"
    by (auto simp: in_set_conv_nth)
  then have "(i, c) \<in> set (enumerate 0 chunks)"
    by (simp add: in_set_enumerate_eq)
  moreover from c have "isl (chunk_entry L d n t ct rl pid (i, c))"
    by (auto simp: chunk_entry_pair isl_def)
  ultimately have "isl (map_result (chunk_entry L d n t ct rl pid) (enumerate 0 chunks))"
    unfolding map_result_Inl_iff by blast
  with assms(1) show ?thesis
    by (auto simp: add_document_chunks_def Let_def isl_def)
qed

lemma add_fails_on_add:
  assumes "chunks \<noteq> []"
    and "map_result (chunk_entry L d n t ct rl pid) (enumerate 0 chunks) = Inr entries"
    and "isl (coll_add L (select_collection (snd (delete_document_chunks L vs d t)) t)
                (map fst entries) (map (fst \<circ> snd) entries) (map (snd \<circ> snd) entries) chunks)"
  shows "fst (add_document_chunks L vs d n chunks t ct rl pid) = False"
  using assms by (auto simp: add_document_chunks_def Let_def isl_def)

lemma delete_fails:
  "isl (coll_delete L (select_collection vs t) (where_document_id d)) \<Longrightarrow>
   delete_document_chunks L vs d t = (False, vs)"
  by (auto simp: delete_document_chunks_def Let_def isl_def)

lemma search_fails_on_embedding: "isl (encode L q) \<Longrightarrow> search_chunks L vs q d k ct = []"
  by (auto simp: search_chunks_unfold isl_def)

lemma search_fails_on_query:
  "encode L q = Inr qe \<Longrightarrow>
   isl (coll_query L (select_collection vs ct) [qe] k (where_clause_of d)) \<Longrightarrow>
   search_chunks L vs q d k ct = []"
  by (auto simp: search_chunks_unfold isl_def)

lemma list_fails_on_contract:
  "dt = None \<or> dt = Some ''contract'' \<Longrightarrow> isl (coll_get L (contract_collection vs) None) \<Longrightarrow>
   list_documents L vs dt = []"
  by (auto simp: list_documents_def list_collection_def isl_def)

lemma list_fails_on_policy:
  "dt = None \<or> dt = Some ''policy'' \<Longrightarrow> isl (coll_get L (policy_collection vs) None) \<Longrightarrow>
   list_documents L vs dt = []"
  by (auto simp: list_documents_def list_collection_def isl_def split: sum.splits)

lemma policy_aware_fields:
  "contract_chunks (search_policy_aware L vs q d ck pk) = search_chunks L vs q d ck ''contract''"
  "policy_chunks (search_policy_aware L vs q d ck pk) = search_chunks L vs q None pk ''policy''"
  "pa_query (search_policy_aware L vs q d ck pk) = q"
  by (simp_all add: search_policy_aware_def Let_def)

subsection \<open>Records after adding and deleting\<close>

lemma added_records:
  assumes ok: "add_document_chunks (reference_store enc dist) vs d n chunks t ct rl pid = (True, vs')"
  shows "map rec_id (filter (has_doc d) (select_collection vs' t))
           = map (chunk_id_of d) [0..<length chunks]
       \<and> map rec_document (filter (has_doc d) (select_collection vs' t)) = chunks
       \<and> map rec_metadata (filter (has_doc d) (select_collection vs' t))
           = map (\<lambda>(i, c). chunk_metadata d n t ct rl pid i c) (enumerate 0 chunks)
       \<and> map (\<lambda>r. Inr (rec_embedding r)) (filter (has_doc d) (select_collection vs' t))
           = map enc chunks"
proof -
  let ?c1 = "filter (\<lambda>r. \<not> has_doc d r) (select_collection vs t)"
  from add_reference_success [OF ok] obtain recs where
    vs': "vs' = put_collection vs t (filter (\<lambda>x. rec_id x \<notin> rec_id ` set recs) ?c1 @ recs)" and
    ids: "map rec_id recs = map (chunk_id_of d) [0..<length chunks]" and
    ms: "map rec_metadata recs = map (\<lambda>(i, c). chunk_metadata d n t ct rl pid i c) (enumerate 0 chunks)" and
    ds: "map rec_document recs = chunks" and
    es: "map (\<lambda>r. Inr (rec_embedding r)) recs = map enc chunks"
    by blast
  have hd: "\<forall>r \<in> set recs. has_doc d r" by (rule recs_have_doc [OF ms])
  have "filter (has_doc d) (filter (\<lambda>x. rec_id x \<notin> rec_id ` set recs) ?c1) = []"
    by (auto simp: filter_empty_conv)
  moreover from hd have "filter (has_doc d) recs = recs" by simp
  ultimately have "filter (has_doc d) (select_collection vs' t) = recs" by (simp add: vs')
  with ids ms ds es show ?thesis by simp
qed

lemma delete_keeps_policy:
  "policy_collection (snd (delete_document_chunks L vs d ''contract'')) = policy_collection vs"
  by (simp add: delete_document_chunks_def put_collection_def Let_def split: sum.splits)

lemma format_result_type:
  "format_result res t i
   = map_sum id (\<lambda>h. h\<lparr>hit_collection_type := t\<rparr>) (format_result res t' i)"
  by (simp add: format_result_def split: sum.splits)

lemma map_result_map_sum:
  "map_result (\<lambda>x. map_sum id g (f x)) xs = map_sum id (map g) (map_result f xs)"
  by (induction xs) (simp_all split: sum.splits)

lemma format_results_type:
  "format_results res t
   = map_sum id (map (\<lambda>h. h\<lparr>hit_collection_type := t\<rparr>)) (format_results res t')"
proof -
  have fe: "format_result res t
            = (\<lambda>i. map_sum id (\<lambda>h. h\<lparr>hit_collection_type := t\<rparr>) (format_result res t' i))"
    by (rule ext) (rule format_result_type)
  have "map_result (format_result res t) xs
        = map_sum id (map (\<lambda>h. h\<lparr>hit_collection_type := t\<rparr>)) (map_result (format_result res t') xs)"
    for xs
    by (subst fe) (rule map_result_map_sum)
  then show ?thesis by (simp add: format_results_def split: list.splits)
qed

lemma search_chunks_other_type:
  assumes "t \<noteq> ''contract''"
  shows "search_chunks L vs q d k t
         = map (\<lambda>h. h\<lparr>hit_collection_type := t\<rparr>) (search_chunks L vs q d k ''policy'')"
proof -
  from assms have s: "select_collection vs t = select_collection vs ''policy''"
    by (simp add: select_collection_def)
  show ?thesis
    unfolding search_chunks_unfold s
    by (simp add: format_results_type [of _ t "''policy''"] split: sum.splits)
qed

lemma add_keeps_contract:
  fixes vs :: "'c VectorStore"
  assumes "t \<noteq> ''contract''"
  shows "contract_collection (snd (add_document_chunks L vs d n chunks t ct rl pid))
         = contract_collection vs"
proof -
  from assms have p: "contract_collection (put_collection v t c) = contract_collection v"
    for v :: "'c VectorStore" and c
    by (simp add: put_collection_def)
  have d: "contract_collection (snd (delete_document_chunks L vs d t)) = contract_collection vs"
    by (simp add: delete_document_chunks_def Let_def p split: sum.splits)
  show ?thesis
    by (simp add: add_document_chunks_def Let_def p d split: sum.splits)
qed

subsection \<open>Grouping\<close>

lemma store_get_all: "store_get c None = Inr (all_records c)"
  by (simp add: store_get_def matches_opt_def all_records_def)

lemma map_fst_bump_count: "map fst (bump_count k ds) = map fst ds"
  by (induction ds) auto

lemma map_of_bump_count:
  "map_of (bump_count k ds) k'
   = (if k' = k then map_option (\<lambda>s. s\<lparr>sum_chunk_count := sum_chunk_count s + 1\<rparr>) (map_of ds k)
      else map_of ds k')"
  by (induction ds) auto

lemma keys_group_loop:
  "set (map fst (group_loop ms t acc)) = set (map fst acc) \<union> (\<lambda>m. md_get m ''document_id'') ` set ms"
proof (induction ms arbitrary: acc)
  case Nil
  then show ?case by simp
next
  case (Cons m ms)
  show ?case
    by (simp add: Let_def Cons.IH map_fst_bump_count del: set_map) auto
qed

lemma distinct_group_loop:
  "distinct (map fst acc) \<Longrightarrow> distinct (map fst (group_loop ms t acc))"
proof (induction ms arbitrary: acc)
  case Nil
  then show ?case by simp
next
  case (Cons m ms)
  show ?case
    by (simp add: Let_def del: set_map)
       (intro conjI impI; rule Cons.IH; simp add: map_fst_bump_count Cons.prems)
qed

lemma map_of_group_loop:
  "map_of (group_loop ms t acc) k =
     (case map_of acc k of
        Some s0 \<Rightarrow>
          Some (s0\<lparr>sum_chunk_count :=
                   sum_chunk_count s0 + int (length (filter (\<lambda>m. md_get m ''document_id'' = k) ms))\<rparr>)
      | None \<Rightarrow>
          (case find (\<lambda>m. md_get m ''document_id'' = k) ms of
             None \<Rightarrow> None
           | Some m \<Rightarrow>
               Some ((seed_summary m t)\<lparr>sum_chunk_count :=
                        int (length (filter (\<lambda>m. md_get m ''document_id'' = k) ms))\<rparr>)))"
proof (induction ms arbitrary: acc)
  case Nil
  then show ?case by (simp split: option.splits)
next
  case (Cons m ms)
  let ?key = "md_get m ''document_id''"
  let ?acc1 = "if ?key \<notin> set (map fst acc) then acc @ [(?key, seed_summary m t)] else acc"
  have step: "group_loop (m # ms) t acc = group_loop ms t (bump_count ?key ?acc1)"
    by (simp add: Let_def)
  have seed0: "sum_chunk_count (seed_summary m t) = 0"
    by (simp add: seed_summary_def Let_def)
  have acc1: "map_of ?acc1 k =
      (case map_of acc k of Some s \<Rightarrow> Some s
       | None \<Rightarrow> if k = ?key then Some (seed_summary m t) else None)"
  proof (cases "map_of acc ?key")
    case None
    then have "?key \<notin> set (map fst acc)" by (simp add: map_of_eq_None_iff)
    then have "?acc1 = acc @ [(?key, seed_summary m t)]" by simp
    then show ?thesis
      by (simp add: map_add_def split: option.splits)
  next
    case (Some x)
    then have "?key \<in> set (map fst acc)"
      by (metis map_of_eq_None_iff option.distinct(1) set_map)
    then have "?acc1 = acc" by simp
    with Some show ?thesis by (auto split: option.splits)
  qed
  show ?case
  proof (cases "k = ?key")
    case True
    show ?thesis
    proof (cases "map_of acc k")
      case None
      with True acc1 have "map_of (bump_count ?key ?acc1) k
                           = Some ((seed_summary m t)\<lparr>sum_chunk_count := 1\<rparr>)"
        by (simp add: map_of_bump_count seed0)
      with True None show ?thesis
        unfolding step Cons.IH by simp
    next
      case (Some s0)
      with True acc1 have "map_of (bump_count ?key ?acc1) k
                           = Some (s0\<lparr>sum_chunk_count := sum_chunk_count s0 + 1\<rparr>)"
        by (simp add: map_of_bump_count)
      with True Some show ?thesis
        unfolding step Cons.IH by simp
    qed
  next
    case False
    with acc1 have "map_of (bump_count ?key ?acc1) k = map_of acc k"
      by (simp add: map_of_bump_count split: option.splits)
    with False show ?thesis
      unfolding step Cons.IH by (auto split: option.splits)
  qed
qed

lemma group_loop_entry:
  assumes "(k, s) \<in> set (group_loop ms t [])"
  shows "\<exists>m. find (\<lambda>m. md_get m ''document_id'' = k) ms = Some m \<and>
             s = (seed_summary m t)\<lparr>sum_chunk_count :=
                    int (length (filter (\<lambda>m. md_get m ''document_id'' = k) ms))\<rparr>"
proof -
  have "distinct (map fst (group_loop ms t []))" by (rule distinct_group_loop) simp
  with assms have "map_of (group_loop ms t []) k = Some s" by simp
  then show ?thesis
    by (simp add: map_of_group_loop split: option.splits)
qed

lemma group_loop_ids:
  "map sum_document_id (map snd (group_loop ms t [])) = map fst (group_loop ms t [])"
proof -
  have "sum_document_id (snd p) = fst p" if "p \<in> set (group_loop ms t [])" for p
  proof -
    from that have "(fst p, snd p) \<in> set (group_loop ms t [])" by simp
    from group_loop_entry [OF this] obtain m where
      f: "find (\<lambda>m. md_get m ''document_id'' = fst p) ms = Some m" and
      s: "snd p = (seed_summary m t)\<lparr>sum_chunk_count :=
                    int (length (filter (\<lambda>m. md_get m ''document_id'' = fst p) ms))\<rparr>"
      by blast
    from f have "md_get m ''document_id'' = fst p" by (auto simp: find_Some_iff)
    with s show ?thesis by (simp add: seed_summary_def Let_def)
  qed
  then show ?thesis by simp
qed

lemma group_documents_properties:
  "distinct (map sum_document_id (group_documents_by_id res t))
   \<and> set (map sum_document_id (group_documents_by_id res t))
       = (\<lambda>m. md_get m ''document_id'') ` set (gr_metadatas res)
   \<and> (\<forall>s \<in> set (group_documents_by_id res t).
        \<exists>m. find (\<lambda>m. md_get m ''document_id'' = sum_document_id s) (gr_metadatas res) = Some m \<and>
            s = (seed_summary m t)\<lparr>sum_chunk_count :=
                   int (length (filter (\<lambda>m. md_get m ''document_id'' = sum_document_id s)
                                  (gr_metadatas res)))\<rparr>)"
proof (intro conjI ballI)
  let ?ms = "gr_metadatas res"
  have ids: "map sum_document_id (group_documents_by_id res t) = map fst (group_loop ?ms t [])"
    by (simp only: group_documents_by_id_def group_loop_ids)
  show "distinct (map sum_document_id (group_documents_by_id res t))"
    unfolding ids by (rule distinct_group_loop) simp
  show "set (map sum_document_id (group_documents_by_id res t))
       = (\<lambda>m. md_get m ''document_id'') ` set (gr_metadatas res)"
    unfolding ids keys_group_loop by simp
  fix s assume "s \<in> set (group_documents_by_id res t)"
  then obtain k where ks: "(k, s) \<in> set (group_loop ?ms t [])"
    by (auto simp: group_documents_by_id_def)
  from group_loop_entry [OF ks] obtain m where
    f: "find (\<lambda>m. md_get m ''document_id'' = k) ?ms = Some m" and
    s: "s = (seed_summary m t)\<lparr>sum_chunk_count :=
                    int (length (filter (\<lambda>m. md_get m ''document_id'' = k) ?ms))\<rparr>"
    by blast
  from f have "md_get m ''document_id'' = k" by (auto simp: find_Some_iff)
  with s have "sum_document_id s = k" by (simp add: seed_summary_def Let_def)
  with f s show "\<exists>m. find (\<lambda>m. md_get m ''document_id'' = sum_document_id s) ?ms = Some m \<and>
            s = (seed_summary m t)\<lparr>sum_chunk_count :=
                   int (length (filter (\<lambda>m. md_get m ''document_id'' = sum_document_id s) ?ms))\<rparr>"
    by (intro exI [of _ m]) simp
qed

lemma find_map_list: "find P (map f xs) = map_option f (find (\<lambda>x. P (f x)) xs)"
  by (induction xs) auto

lemma length_filter_map:
  "length (filter P (map f xs)) = length (filter (\<lambda>x. P (f x)) xs)"
  by (induction xs) simp_all

lemma group_all_records_empty: "group_documents_by_id (all_records []) t = []"
  by (simp add: group_documents_by_id_def all_records_def)

lemma list_collection_reference:
  "list_collection (reference_store enc dist) c t = Inr (group_documents_by_id (all_records c) t)"
proof (cases "c = []")
  case True
  then show ?thesis
    by (simp add: list_collection_def reference_store_sel store_get_all group_all_records_empty)
next
  case False
  then have "gr_ids (all_records c) \<noteq> []" by (simp add: all_records_def)
  then show ?thesis
    by (simp add: list_collection_def reference_store_sel store_get_all)
qed

section \<open>Document information\<close>

lemma get_document_info_constant:
  "get_document_info L vs document_id =
     \<lparr>di_chunk_count = 0, di_document_name = PNone, di_document_id = None\<rparr>"
  by (simp add: get_document_info_def collection_attr_collection)

text \<open>
  C1. \<open>get_document_info\<close> should report the number of chunks stored under the id and the
  stored document name. The method reads the attribute \<^verbatim>\<open>self.collection\<close>, which the class
  never assigns, so the lookup raises and the \<^verbatim>\<open>except\<close> clause of the method answers with a
  count of 0 and no name, whatever is stored. Here one contract chunk is stored under
  \<^verbatim>\<open>doc1\<close> with the name \<^verbatim>\<open>Contract A\<close>, and the method and the endpoint still report 0 and
  \<^verbatim>\<open>None\<close>.
\<close>

theorem get_document_info_misses_stored_chunks:
  "(let vs = snd (add_document_chunks example_backend empty_store ''doc1'' ''Contract A''
                    [''alpha''] ''contract'' None None None)
    in map rec_id (filter (has_doc ''doc1'') (contract_collection vs)) = [''doc1_chunk_0'']
       \<and> map (\<lambda>r. md_get (rec_metadata r) ''document_name'') (contract_collection vs)
           = [PStr ''Contract A'']
       \<and> di_chunk_count (get_document_info example_backend vs ''doc1'') = 0
       \<and> di_document_name (get_document_info example_backend vs ''doc1'') = PNone
       \<and> get_document_info_endpoint example_backend vs ''doc1''
           = Inr \<lparr>resp_document_id = ''doc1'', resp_document_name = PNone,
                  resp_chunk_count = 0, resp_document_type = None\<rparr>)"
  by code_simp

section \<open>Adding chunks\<close>

text \<open>
  C3. With an empty chunk list \<open>add_document_chunks\<close> returns \<open>True\<close>; the collection
  selected by the document type is the previous one without the records whose metadata
  has the document id under \<^verbatim>\<open>document_id\<close>, so no chunk is left there for that id, and
  nothing is inserted.
\<close>

theorem add_empty_chunks_clears:
  "fst (add_document_chunks (reference_store enc dist) vs d n [] t ct rl pid) = True
   \<and> select_collection (snd (add_document_chunks (reference_store enc dist) vs d n [] t ct rl pid)) t
       = filter (\<lambda>r. map_of (rec_metadata r) ''document_id'' \<noteq> Some (PStr d))
           (select_collection vs t)
   \<and> filter (\<lambda>r. map_of (rec_metadata r) ''document_id'' = Some (PStr d))
       (select_collection (snd (add_document_chunks (reference_store enc dist) vs d n [] t ct rl pid)) t)
       = []"
  by (simp add: add_document_chunks_def delete_reference has_doc_iff)

text \<open>
  The theorem on the example store: the two chunks of the contract \<^verbatim>\<open>D\<close> are gone, the chunk
  of \<^verbatim>\<open>E\<close> stays.
\<close>

theorem add_empty_chunks_clears_witness:
  "map (\<lambda>r. (rec_id r, map_of (rec_metadata r) ''document_id'')) (contract_collection example_store)
     = [(''D_chunk_0'', Some (PStr ''D'')), (''D_chunk_1'', Some (PStr ''D'')),
        (''E_chunk_0'', Some (PStr ''E''))]
   \<and> fst (add_document_chunks (reference_store example_encode example_dist) example_store
            ''D'' ''Deal'' [] ''contract'' None None None)
   \<and> map (\<lambda>r. (rec_id r, map_of (rec_metadata r) ''document_id''))
        (contract_collection
          (snd (add_document_chunks (reference_store example_encode example_dist) example_store
                  ''D'' ''Deal'' [] ''contract'' None None None)))
     = [(''E_chunk_0'', Some (PStr ''E''))]"
proof -
  have w: "map (\<lambda>r. (rec_id r, map_of (rec_metadata r) ''document_id'')) (contract_collection example_store)
       = [(''D_chunk_0'', Some (PStr ''D'')), (''D_chunk_1'', Some (PStr ''D'')),
          (''E_chunk_0'', Some (PStr ''E''))]
     \<and> fst (add_document_chunks (reference_store example_encode example_dist) example_store
              ''D'' ''Deal'' [] ''contract'' None None None)
     \<and> map (\<lambda>r. (rec_id r, map_of (rec_metadata r) ''document_id''))
          (contract_collection
            (snd (add_document_chunks (reference_store example_encode example_dist) example_store
                    ''D'' ''Deal'' [] ''contract'' None None None)))
       = [(''E_chunk_0'', Some (PStr ''E''))]"
    by code_simp
  from add_empty_chunks_clears
    [of example_encode example_dist example_store "''D''" "''Deal''" "''contract''" None None None]
    w
  show ?thesis by - assumption
qed

text \<open>
  C2 (as stated). The claim ends with "no chunk id from the prior batch is retrievable".
  Chunk ids are built from the document id and the position only, so a new batch reuses
  the ids of the prior one: after two chunks are replaced by one, the id \<^verbatim>\<open>D_chunk_0\<close> of the
  prior batch is still in the collection (it now names the new chunk).
\<close>

theorem readd_reuses_prior_chunk_id:
  "(let r1 = add_document_chunks example_backend empty_store ''D'' ''first'' [''a'', ''bb'']
               ''contract'' None None None;
        r2 = add_document_chunks example_backend (snd r1) ''D'' ''second'' [''ccc'']
               ''contract'' None None None
    in fst r1 \<and> map rec_id (contract_collection (snd r1)) = [''D_chunk_0'', ''D_chunk_1'']
     \<and> fst r2 \<and> map rec_id (contract_collection (snd r2)) = [''D_chunk_0'']
     \<and> map rec_document (contract_collection (snd r2)) = [''ccc''])"
  by code_simp

text \<open>
  C2 (amended). After a successful \<open>add_document_chunks\<close> the records stored under the
  document id in the target collection are exactly the new chunks, in order: their ids are
  \<^verbatim>\<open>{document_id}_chunk_0\<close>, \<^verbatim>\<open>{document_id}_chunk_1\<close>, ..., their texts the chunk list,
  their metadata and embeddings those computed for the new batch. So no record of the
  prior batch remains, and the id of a prior record of that document is retrievable
  afterwards exactly when the new batch uses that id again. Ids are unique in a collection
  (the second hypothesis).
\<close>

theorem add_document_chunks_replaces:
  assumes ok: "add_document_chunks (reference_store enc dist) vs d n chunks t ct rl pid = (True, vs')"
      and wf: "distinct (map rec_id (select_collection vs t))"
  shows "map rec_id (filter (has_doc d) (select_collection vs' t))
           = map (chunk_id_of d) [0..<length chunks]
       \<and> map rec_document (filter (has_doc d) (select_collection vs' t)) = chunks
       \<and> map rec_metadata (filter (has_doc d) (select_collection vs' t))
           = map (\<lambda>(i, c). chunk_metadata d n t ct rl pid i c) (enumerate 0 chunks)
       \<and> map (\<lambda>r. Inr (rec_embedding r)) (filter (has_doc d) (select_collection vs' t))
           = map enc chunks
       \<and> (\<forall>r \<in> set (select_collection vs t). has_doc d r \<longrightarrow>
            (rec_id r \<in> set (map rec_id (select_collection vs' t)))
              = (rec_id r \<in> set (map (chunk_id_of d) [0..<length chunks])))"
proof -
  let ?c0 = "select_collection vs t"
  let ?c1 = "filter (\<lambda>r. \<not> has_doc d r) ?c0"
  from add_reference_success [OF ok] obtain recs where
    vs': "vs' = put_collection vs t (filter (\<lambda>x. rec_id x \<notin> rec_id ` set recs) ?c1 @ recs)" and
    ids: "map rec_id recs = map (chunk_id_of d) [0..<length chunks]" and
    ms: "map rec_metadata recs = map (\<lambda>(i, c). chunk_metadata d n t ct rl pid i c) (enumerate 0 chunks)" and
    ds: "map rec_document recs = chunks" and
    es: "map (\<lambda>r. Inr (rec_embedding r)) recs = map enc chunks"
    by blast
  from vs' have sel: "select_collection vs' t = filter (\<lambda>x. rec_id x \<notin> rec_id ` set recs) ?c1 @ recs"
    by simp
  have hd: "\<forall>r \<in> set recs. has_doc d r" by (rule recs_have_doc [OF ms])
  have f: "filter (has_doc d) (select_collection vs' t) = recs"
  proof -
    have "filter (has_doc d) (filter (\<lambda>x. rec_id x \<notin> rec_id ` set recs) ?c1) = []"
      by (auto simp: filter_empty_conv)
    moreover from hd have "filter (has_doc d) recs = recs" by simp
    ultimately show ?thesis by (simp add: sel)
  qed
  have r: "\<forall>r \<in> set ?c0. has_doc d r \<longrightarrow>
            (rec_id r \<in> set (map rec_id (select_collection vs' t)))
              = (rec_id r \<in> set (map (chunk_id_of d) [0..<length chunks]))"
  proof (intro ballI impI)
    fix r assume r: "r \<in> set ?c0" and h: "has_doc d r"
    have "rec_id r \<notin> rec_id ` set ?c1"
    proof
      assume "rec_id r \<in> rec_id ` set ?c1"
      then obtain x where x: "x \<in> set ?c0" "\<not> has_doc d x" "rec_id x = rec_id r" by auto
      from wf have "inj_on rec_id (set ?c0)" by (simp add: distinct_map)
      with x r have "x = r" by (auto dest: inj_onD)
      with x h show False by simp
    qed
    then have "(rec_id r \<in> set (map rec_id (select_collection vs' t)))
               = (rec_id r \<in> set (map rec_id recs))"
      by (auto simp: sel)
    then show "(rec_id r \<in> set (map rec_id (select_collection vs' t)))
              = (rec_id r \<in> set (map (chunk_id_of d) [0..<length chunks]))"
      by (simp only: ids)
  qed
  from ids ms ds es r show ?thesis by (simp only: f) 
qed

text \<open>The theorem at a concrete store: two chunks of \<^verbatim>\<open>D\<close> replaced by one.\<close>

theorem add_document_chunks_replaces_witness:
  "(let vs1 = snd (add_document_chunks (reference_store example_encode example_dist) empty_store
                      ''D'' ''first'' [''a'', ''bb''] ''contract'' None None None);
        vs2 = snd (add_document_chunks (reference_store example_encode example_dist) vs1
                      ''D'' ''second'' [''ccc''] ''contract'' None None None);
        r = select_collection vs1 ''contract'' ! 1
    in add_document_chunks (reference_store example_encode example_dist) vs1
          ''D'' ''second'' [''ccc''] ''contract'' None None None = (True, vs2)
     \<and> distinct (map rec_id (select_collection vs1 ''contract''))
     \<and> map rec_id (filter (has_doc ''D'') (select_collection vs2 ''contract'')) = [''D_chunk_0'']
     \<and> map rec_document (filter (has_doc ''D'') (select_collection vs2 ''contract'')) = [''ccc'']
     \<and> r \<in> set (select_collection vs1 ''contract'') \<and> has_doc ''D'' r
     \<and> rec_id r = ''D_chunk_1''
     \<and> rec_id r \<notin> set (map rec_id (select_collection vs2 ''contract'')))"
proof -
  let ?vs1 = "snd (add_document_chunks (reference_store example_encode example_dist) empty_store
                      ''D'' ''first'' [''a'', ''bb''] ''contract'' None None None)"
  let ?vs2 = "snd (add_document_chunks (reference_store example_encode example_dist) ?vs1
                      ''D'' ''second'' [''ccc''] ''contract'' None None None)"
  have ok: "add_document_chunks (reference_store example_encode example_dist) ?vs1
          ''D'' ''second'' [''ccc''] ''contract'' None None None = (True, ?vs2)"
    by code_simp
  have wf: "distinct (map rec_id (select_collection ?vs1 ''contract''))"
    by code_simp
  show ?thesis
    using add_document_chunks_replaces [OF ok wf] by code_simp
qed

text \<open>
  C7. After a successful \<open>add_document_chunks\<close>, for every position \<open>i\<close> of the chunk list
  the target collection holds exactly one record with the id
  \<^verbatim>\<open>{document_id}_chunk_{i}\<close>; its text is the \<open>i\<close>-th chunk and its metadata has
  \<^verbatim>\<open>chunk_index\<close> \<open>i\<close>, \<^verbatim>\<open>chunk_length\<close> the length of the chunk and \<^verbatim>\<open>section_label\<close>
  \<^verbatim>\<open>chunk_{i+1}\<close>. For the document type \<^verbatim>\<open>policy\<close> the metadata also has \<^verbatim>\<open>clause_type\<close>,
  \<^verbatim>\<open>risk_level\<close> and \<^verbatim>\<open>policy_id\<close>: the supplied argument when it is a non-empty string,
  and \<^verbatim>\<open>general\<close>, \<^verbatim>\<open>medium\<close> and the document id when the argument is absent (or the
  empty string). For any other type the metadata has none of the three keys.
\<close>

theorem stored_chunk_record:
  assumes ok: "add_document_chunks (reference_store enc dist) vs d n chunks t ct rl pid = (True, vs')"
      and i: "i < length chunks"
  shows "\<exists>r. filter (\<lambda>x. rec_id x = d @ ''_chunk_'' @ str_nat i) (select_collection vs' t) = [r]
           \<and> rec_document r = chunks ! i
           \<and> map_of (rec_metadata r) ''chunk_index'' = Some (PInt (int i))
           \<and> map_of (rec_metadata r) ''chunk_length'' = Some (PInt (int (length (chunks ! i))))
           \<and> map_of (rec_metadata r) ''section_label'' = Some (PStr (''chunk_'' @ str_nat (i + 1)))
           \<and> (t = ''policy'' \<and> ct = None \<longrightarrow>
                map_of (rec_metadata r) ''clause_type'' = Some (PStr ''general''))
           \<and> (t = ''policy'' \<and> ct = Some [] \<longrightarrow>
                map_of (rec_metadata r) ''clause_type'' = Some (PStr ''general''))
           \<and> (\<forall>s. t = ''policy'' \<and> ct = Some s \<and> s \<noteq> [] \<longrightarrow>
                map_of (rec_metadata r) ''clause_type'' = Some (PStr s))
           \<and> (t = ''policy'' \<and> rl = None \<longrightarrow>
                map_of (rec_metadata r) ''risk_level'' = Some (PStr ''medium''))
           \<and> (t = ''policy'' \<and> rl = Some [] \<longrightarrow>
                map_of (rec_metadata r) ''risk_level'' = Some (PStr ''medium''))
           \<and> (\<forall>s. t = ''policy'' \<and> rl = Some s \<and> s \<noteq> [] \<longrightarrow>
                map_of (rec_metadata r) ''risk_level'' = Some (PStr s))
           \<and> (t = ''policy'' \<and> pid = None \<longrightarrow>
                map_of (rec_metadata r) ''policy_id'' = Some (PStr d))
           \<and> (t = ''policy'' \<and> pid = Some [] \<longrightarrow>
                map_of (rec_metadata r) ''policy_id'' = Some (PStr d))
           \<and> (\<forall>s. t = ''policy'' \<and> pid = Some s \<and> s \<noteq> [] \<longrightarrow>
                map_of (rec_metadata r) ''policy_id'' = Some (PStr s))
           \<and> (t \<noteq> ''policy'' \<longrightarrow>
                map_of (rec_metadata r) ''clause_type'' = None
              \<and> map_of (rec_metadata r) ''risk_level'' = None
              \<and> map_of (rec_metadata r) ''policy_id'' = None)"
proof -
  let ?c1 = "filter (\<lambda>r. \<not> has_doc d r) (select_collection vs t)"
  from add_reference_success [OF ok] obtain recs where
    vs': "vs' = put_collection vs t (filter (\<lambda>x. rec_id x \<notin> rec_id ` set recs) ?c1 @ recs)" and
    ids: "map rec_id recs = map (chunk_id_of d) [0..<length chunks]" and
    ms: "map rec_metadata recs = map (\<lambda>(i, c). chunk_metadata d n t ct rl pid i c) (enumerate 0 chunks)" and
    ds: "map rec_document recs = chunks"
    by blast
  from ids have len: "length recs = length chunks"
    by (metis length_map length_upt minus_nat.diff_0)
  let ?r = "recs ! i"
  from i len have ri: "?r \<in> set recs" by simp
  from ids i len have id: "rec_id ?r = chunk_id_of d i"
    by (metis add_0 length_map nth_map nth_upt)
  from ds i len have doc: "rec_document ?r = chunks ! i"
    by (metis nth_map)
  from ms i len have "rec_metadata ?r = (map (\<lambda>(i, c). chunk_metadata d n t ct rl pid i c) (enumerate 0 chunks)) ! i"
    by (metis nth_map)
  with i have md: "rec_metadata ?r = chunk_metadata d n t ct rl pid i (chunks ! i)"
    by (simp add: nth_enumerate_eq)
  have dis: "distinct (map rec_id recs)" by (simp add: ids distinct_chunk_ids)
  from i len have "filter (\<lambda>x. rec_id x = rec_id ?r) recs = [?r]"
    by (intro filter_distinct_nth [OF dis]) simp
  moreover from ri have "filter (\<lambda>x. rec_id x = rec_id ?r) (filter (\<lambda>x. rec_id x \<notin> rec_id ` set recs) ?c1) = []"
    by (auto simp: filter_empty_conv)
  ultimately have "filter (\<lambda>x. rec_id x = rec_id ?r) (select_collection vs' t) = [?r]"
    by (simp add: vs')
  then have one: "filter (\<lambda>x. rec_id x = d @ ''_chunk_'' @ str_nat i) (select_collection vs' t) = [?r]"
    by (simp only: id chunk_id_of_def)
  have meta: "map_of (rec_metadata ?r) ''chunk_index'' = Some (PInt (int i))"
     "map_of (rec_metadata ?r) ''chunk_length'' = Some (PInt (int (length (chunks ! i))))"
     "map_of (rec_metadata ?r) ''section_label'' = Some (PStr (''chunk_'' @ str_nat (i + 1)))"
    by (simp_all add: md chunk_metadata_def dict_update_def Let_def)
  have c: "t = ''policy'' \<and> ct = None \<longrightarrow>
             map_of (rec_metadata ?r) ''clause_type'' = Some (PStr ''general'')"
          "t = ''policy'' \<and> ct = Some [] \<longrightarrow>
             map_of (rec_metadata ?r) ''clause_type'' = Some (PStr ''general'')"
          "\<forall>s. t = ''policy'' \<and> ct = Some s \<and> s \<noteq> [] \<longrightarrow>
             map_of (rec_metadata ?r) ''clause_type'' = Some (PStr s)"
    by (auto simp: md policy_chunk_metadata or_default_def)
  have l: "t = ''policy'' \<and> rl = None \<longrightarrow>
             map_of (rec_metadata ?r) ''risk_level'' = Some (PStr ''medium'')"
          "t = ''policy'' \<and> rl = Some [] \<longrightarrow>
             map_of (rec_metadata ?r) ''risk_level'' = Some (PStr ''medium'')"
          "\<forall>s. t = ''policy'' \<and> rl = Some s \<and> s \<noteq> [] \<longrightarrow>
             map_of (rec_metadata ?r) ''risk_level'' = Some (PStr s)"
    by (auto simp: md policy_chunk_metadata or_default_def)
  have p: "t = ''policy'' \<and> pid = None \<longrightarrow>
             map_of (rec_metadata ?r) ''policy_id'' = Some (PStr d)"
          "t = ''policy'' \<and> pid = Some [] \<longrightarrow>
             map_of (rec_metadata ?r) ''policy_id'' = Some (PStr d)"
          "\<forall>s. t = ''policy'' \<and> pid = Some s \<and> s \<noteq> [] \<longrightarrow>
             map_of (rec_metadata ?r) ''policy_id'' = Some (PStr s)"
    by (auto simp: md policy_chunk_metadata or_default_def)
  have o: "t \<noteq> ''policy'' \<longrightarrow>
             map_of (rec_metadata ?r) ''clause_type'' = None
           \<and> map_of (rec_metadata ?r) ''risk_level'' = None
           \<and> map_of (rec_metadata ?r) ''policy_id'' = None"
    by (simp add: md other_chunk_metadata)
  show ?thesis
    by (rule exI [of _ ?r]) (intro conjI one doc meta c l p o)
qed

text \<open>
  The theorem at four calls on the empty store: a policy document with \<^verbatim>\<open>clause_type\<close>
  supplied, \<^verbatim>\<open>risk_level\<close> absent and \<^verbatim>\<open>policy_id\<close> empty; one with \<^verbatim>\<open>clause_type\<close> absent and the
  other two supplied; one with two empty arguments and \<^verbatim>\<open>policy_id\<close> absent; and a contract,
  whose supplied policy arguments are not stored.
\<close>

theorem stored_chunk_record_witness:
  "(\<exists>r. filter (\<lambda>x. rec_id x = ''P_chunk_1'')
           (select_collection (snd (add_document_chunks (reference_store example_encode example_dist) empty_store
          ''P'' ''Policy'' [''a'', ''bb''] ''policy'' (Some ''liability'') None (Some []))) ''policy'') = [r]
         \<and> rec_document r = ''bb''
         \<and> map_of (rec_metadata r) ''chunk_index'' = Some (PInt 1)
         \<and> map_of (rec_metadata r) ''chunk_length'' = Some (PInt 2)
         \<and> map_of (rec_metadata r) ''section_label'' = Some (PStr ''chunk_2'')
         \<and> map_of (rec_metadata r) ''clause_type'' = Some (PStr ''liability'')
         \<and> map_of (rec_metadata r) ''risk_level'' = Some (PStr ''medium'')
         \<and> map_of (rec_metadata r) ''policy_id'' = Some (PStr ''P'')
      )
   \<and> (\<exists>r. filter (\<lambda>x. rec_id x = ''P_chunk_0'')
           (select_collection (snd (add_document_chunks (reference_store example_encode example_dist) empty_store
          ''P'' ''Policy'' [''a'', ''bb''] ''policy'' None (Some ''high'') (Some ''POL-7''))) ''policy'') = [r]
         \<and> rec_document r = ''a''
         \<and> map_of (rec_metadata r) ''chunk_index'' = Some (PInt 0)
         \<and> map_of (rec_metadata r) ''chunk_length'' = Some (PInt 1)
         \<and> map_of (rec_metadata r) ''section_label'' = Some (PStr ''chunk_1'')
         \<and> map_of (rec_metadata r) ''clause_type'' = Some (PStr ''general'')
         \<and> map_of (rec_metadata r) ''risk_level'' = Some (PStr ''high'')
         \<and> map_of (rec_metadata r) ''policy_id'' = Some (PStr ''POL-7'')
      )
   \<and> (\<exists>r. filter (\<lambda>x. rec_id x = ''P_chunk_0'')
           (select_collection (snd (add_document_chunks (reference_store example_encode example_dist) empty_store
          ''P'' ''Policy'' [''a'', ''bb''] ''policy'' (Some []) (Some []) None)) ''policy'') = [r]
         \<and> rec_document r = ''a''
         \<and> map_of (rec_metadata r) ''chunk_index'' = Some (PInt 0)
         \<and> map_of (rec_metadata r) ''chunk_length'' = Some (PInt 1)
         \<and> map_of (rec_metadata r) ''section_label'' = Some (PStr ''chunk_1'')
         \<and> map_of (rec_metadata r) ''clause_type'' = Some (PStr ''general'')
         \<and> map_of (rec_metadata r) ''risk_level'' = Some (PStr ''medium'')
         \<and> map_of (rec_metadata r) ''policy_id'' = Some (PStr ''P'')
      )
   \<and> (\<exists>r. filter (\<lambda>x. rec_id x = ''D_chunk_1'')
           (select_collection (snd (add_document_chunks (reference_store example_encode example_dist) empty_store
          ''D'' ''Deal'' [''a'', ''bb''] ''contract'' (Some ''liability'') (Some ''high'') (Some ''POL-7''))) ''contract'') = [r]
         \<and> rec_document r = ''bb''
         \<and> map_of (rec_metadata r) ''chunk_index'' = Some (PInt 1)
         \<and> map_of (rec_metadata r) ''chunk_length'' = Some (PInt 2)
         \<and> map_of (rec_metadata r) ''section_label'' = Some (PStr ''chunk_2'')
         \<and> map_of (rec_metadata r) ''clause_type'' = None
         \<and> map_of (rec_metadata r) ''risk_level'' = None
         \<and> map_of (rec_metadata r) ''policy_id'' = None
      )"
proof -
  have s: "str_nat 0 = ''0''" "str_nat (Suc 0) = ''1''" "str_nat (Suc (Suc 0)) = ''2''" by code_simp+
  have a: "(\<exists>r. filter (\<lambda>x. rec_id x = ''P_chunk_1'')
           (select_collection (snd (add_document_chunks (reference_store example_encode example_dist) empty_store
          ''P'' ''Policy'' [''a'', ''bb''] ''policy'' (Some ''liability'') None (Some []))) ''policy'') = [r]
         \<and> rec_document r = ''bb''
         \<and> map_of (rec_metadata r) ''chunk_index'' = Some (PInt 1)
         \<and> map_of (rec_metadata r) ''chunk_length'' = Some (PInt 2)
         \<and> map_of (rec_metadata r) ''section_label'' = Some (PStr ''chunk_2'')
         \<and> map_of (rec_metadata r) ''clause_type'' = Some (PStr ''liability'')
         \<and> map_of (rec_metadata r) ''risk_level'' = Some (PStr ''medium'')
         \<and> map_of (rec_metadata r) ''policy_id'' = Some (PStr ''P'')
      )"
  proof -
    have ok: "add_document_chunks (reference_store example_encode example_dist) empty_store
          ''P'' ''Policy'' [''a'', ''bb''] ''policy'' (Some ''liability'') None (Some [])
          = (True, snd (add_document_chunks (reference_store example_encode example_dist) empty_store
          ''P'' ''Policy'' [''a'', ''bb''] ''policy'' (Some ''liability'') None (Some [])))"
      by code_simp
    have i: "(1::nat) < length [''a'', ''bb'']" by simp
    from stored_chunk_record [OF ok i] show ?thesis
      by (simp add: s, blast?)
  qed
  have b: "(\<exists>r. filter (\<lambda>x. rec_id x = ''P_chunk_0'')
           (select_collection (snd (add_document_chunks (reference_store example_encode example_dist) empty_store
          ''P'' ''Policy'' [''a'', ''bb''] ''policy'' None (Some ''high'') (Some ''POL-7''))) ''policy'') = [r]
         \<and> rec_document r = ''a''
         \<and> map_of (rec_metadata r) ''chunk_index'' = Some (PInt 0)
         \<and> map_of (rec_metadata r) ''chunk_length'' = Some (PInt 1)
         \<and> map_of (rec_metadata r) ''section_label'' = Some (PStr ''chunk_1'')
         \<and> map_of (rec_metadata r) ''clause_type'' = Some (PStr ''general'')
         \<and> map_of (rec_metadata r) ''risk_level'' = Some (PStr ''high'')
         \<and> map_of (rec_metadata r) ''policy_id'' = Some (PStr ''POL-7'')
      )"
  proof -
    have ok: "add_document_chunks (reference_store example_encode example_dist) empty_store
          ''P'' ''Policy'' [''a'', ''bb''] ''policy'' None (Some ''high'') (Some ''POL-7'')
          = (True, snd (add_document_chunks (reference_store example_encode example_dist) empty_store
          ''P'' ''Policy'' [''a'', ''bb''] ''policy'' None (Some ''high'') (Some ''POL-7'')))"
      by code_simp
    have i: "(0::nat) < length [''a'', ''bb'']" by simp
    from stored_chunk_record [OF ok i] show ?thesis
      by (simp add: s, blast?)
  qed
  have c: "(\<exists>r. filter (\<lambda>x. rec_id x = ''P_chunk_0'')
           (select_collection (snd (add_document_chunks (reference_store example_encode example_dist) empty_store
          ''P'' ''Policy'' [''a'', ''bb''] ''policy'' (Some []) (Some []) None)) ''policy'') = [r]
         \<and> rec_document r = ''a''
         \<and> map_of (rec_metadata r) ''chunk_index'' = Some (PInt 0)
         \<and> map_of (rec_metadata r) ''chunk_length'' = Some (PInt 1)
         \<and> map_of (rec_metadata r) ''section_label'' = Some (PStr ''chunk_1'')
         \<and> map_of (rec_metadata r) ''clause_type'' = Some (PStr ''general'')
         \<and> map_of (rec_metadata r) ''risk_level'' = Some (PStr ''medium'')
         \<and> map_of (rec_metadata r) ''policy_id'' = Some (PStr ''P'')
      )"
  proof -
    have ok: "add_document_chunks (reference_store example_encode example_dist) empty_store
          ''P'' ''Policy'' [''a'', ''bb''] ''policy'' (Some []) (Some []) None
          = (True, snd (add_document_chunks (reference_store example_encode example_dist) empty_store
          ''P'' ''Policy'' [''a'', ''bb''] ''policy'' (Some []) (Some []) None))"
      by code_simp
    have i: "(0::nat) < length [''a'', ''bb'']" by simp
    from stored_chunk_record [OF ok i] show ?thesis
      by (simp add: s, blast?)
  qed
  have d: "(\<exists>r. filter (\<lambda>x. rec_id x = ''D_chunk_1'')
           (select_collection (snd (add_document_chunks (reference_store example_encode example_dist) empty_store
          ''D'' ''Deal'' [''a'', ''bb''] ''contract'' (Some ''liability'') (Some ''high'') (Some ''POL-7''))) ''contract'') = [r]
         \<and> rec_document r = ''bb''
         \<and> map_of (rec_metadata r) ''chunk_index'' = Some (PInt 1)
         \<and> map_of (rec_metadata r) ''chunk_length'' = Some (PInt 2)
         \<and> map_of (rec_metadata r) ''section_label'' = Some (PStr ''chunk_2'')
         \<and> map_of (rec_metadata r) ''clause_type'' = None
         \<and> map_of (rec_metadata r) ''risk_level'' = None
         \<and> map_of (rec_metadata r) ''policy_id'' = None
      )"
  proof -
    have ok: "add_document_chunks (reference_store example_encode example_dist) empty_store
          ''D'' ''Deal'' [''a'', ''bb''] ''contract'' (Some ''liability'') (Some ''high'') (Some ''POL-7'')
          = (True, snd (add_document_chunks (reference_store example_encode example_dist) empty_store
          ''D'' ''Deal'' [''a'', ''bb''] ''contract'' (Some ''liability'') (Some ''high'') (Some ''POL-7'')))"
      by code_simp
    have i: "(1::nat) < length [''a'', ''bb'']" by simp
    from stored_chunk_record [OF ok i] show ?thesis
      by (simp add: s, blast?)
  qed
  from a b c d show ?thesis by (intro conjI)
qed

section \<open>Searching\<close>

text \<open>
  C5. In every result of \<open>search_chunks\<close> the \<^verbatim>\<open>similarity_score\<close> is 1 minus the
  \<^verbatim>\<open>distance\<close> of the same result, and the distances of the results are, in order, the
  distances the query of the collection reported. Subtraction is the one of the number
  type of the distances, whatever that type is.
\<close>

theorem similarity_is_one_minus_distance:
  "list_all (\<lambda>h. similarity_score h = 1 - distance h) (search_chunks L vs q d k ct)
   \<and> (\<forall>qe res ds.
         encode L q = Inr qe \<longrightarrow>
         coll_query L (select_collection vs ct) [qe] k (where_clause_of d) = Inr res \<longrightarrow>
         py_nth (qr_distances res) 0 = Inr ds \<longrightarrow>
         map distance (search_chunks L vs q d k ct)
           = take (length (search_chunks L vs q d k ct)) ds)"
proof (intro conjI allI impI)
  show "list_all (\<lambda>h. similarity_score h = 1 - distance h) (search_chunks L vs q d k ct)"
    by (auto simp: search_chunks_unfold format_results_similarity split: sum.splits)
next
  fix qe res ds
  assume "encode L q = Inr qe"
    and "coll_query L (select_collection vs ct) [qe] k (where_clause_of d) = Inr res"
    and ds: "py_nth (qr_distances res) 0 = Inr ds"
  then have s: "search_chunks L vs q d k ct
                = (case format_results res ct of Inl e \<Rightarrow> [] | Inr hs \<Rightarrow> hs)"
    by (simp add: search_chunks_unfold)
  show "map distance (search_chunks L vs q d k ct)
           = take (length (search_chunks L vs q d k ct)) ds"
  proof (cases "format_results res ct")
    case (Inl e)
    with s show ?thesis by simp
  next
    case (Inr hs)
    with s format_results_distances [OF Inr ds] show ?thesis by simp
  qed
qed

text \<open>The theorem on the example store: three contract chunks, at distances 1, 1 and 2.\<close>

theorem similarity_is_one_minus_distance_witness:
  "encode example_backend ''abc'' = Inr 3
   \<and> (case coll_query example_backend (select_collection example_store ''contract'') [3] 5
              (where_clause_of None) of
         Inl e \<Rightarrow> False
       | Inr res \<Rightarrow> py_nth (qr_distances res) 0 = Inr [1, 1, 2])
   \<and> map distance (search_chunks example_backend example_store ''abc'' None 5 ''contract'') = [1, 1, 2]
   \<and> map similarity_score (search_chunks example_backend example_store ''abc'' None 5 ''contract'')
       = [0, 0, - 1]"
proof -
  let ?res = "projr (coll_query example_backend (select_collection example_store ''contract'') [3] 5
              (where_clause_of None))"
  have e: "encode example_backend ''abc'' = Inr 3" by code_simp
  have q: "coll_query example_backend (select_collection example_store ''contract'') [3] 5
              (where_clause_of None) = Inr ?res"
    by (simp add: example_backend_def reference_store_sel store_query_def)
  have n: "py_nth (qr_distances ?res) 0 = Inr [1, 1, 2]" by code_simp
  note t = similarity_is_one_minus_distance
    [of example_backend example_store "''abc''" None 5 "''contract''"]
  from t have a: "list_all (\<lambda>h. similarity_score h = 1 - distance h)
                    (search_chunks example_backend example_store ''abc'' None 5 ''contract'')"
    by (rule conjunct1)
  from t e q n have b: "map distance (search_chunks example_backend example_store ''abc'' None 5 ''contract'')
           = take (length (search_chunks example_backend example_store ''abc'' None 5 ''contract''))
               [1, 1, 2]"
    by blast
  show ?thesis using a b by code_simp
qed

text \<open>
  C4 (as stated). The contract search is said to be filtered by the document id whenever
  one is given. The filter is built under \<^verbatim>\<open>if document_id:\<close>, so the empty string, which
  is a string the request can carry, gives no filter: no stored chunk has the document id
  \<^verbatim>\<open>""\<close>, and yet the search returns chunks of \<^verbatim>\<open>D\<close> and \<^verbatim>\<open>E\<close>.
\<close>

theorem empty_document_id_is_not_a_filter:
  "filter (has_doc '''') (contract_collection example_store) = []
   \<and> map (\<lambda>h. (hit_chunk_id h, md_get (hit_metadata h) ''document_id''))
        (contract_chunks (search_policy_aware example_backend example_store ''abc'' (Some '''') 2 3))
      = [(''D_chunk_1'', PStr ''D''), (''E_chunk_0'', PStr ''E'')]"
  by code_simp

text \<open>
  C4 (amended). \<open>search_policy_aware\<close> returns the query, at most \<open>contract_top_k\<close> contract
  results and at most \<open>policy_top_k\<close> policy results (none when the bound is not positive).
  Every contract result is a record of the contract collection, stored under the document
  id when a non-empty one is given; every policy result is a record of the policy
  collection. With a non-empty document id the contract results are those of an
  unfiltered search among the contract records of that document; with no document id or
  the empty one the contract search is unfiltered; the policy search never depends on the
  document id.
\<close>

theorem search_policy_aware_two_searches:
  "pa_query (search_policy_aware (reference_store enc dist) vs q d ck pk) = q
   \<and> length (contract_chunks (search_policy_aware (reference_store enc dist) vs q d ck pk)) \<le> nat ck
   \<and> length (policy_chunks (search_policy_aware (reference_store enc dist) vs q d ck pk)) \<le> nat pk
   \<and> (\<forall>h \<in> set (contract_chunks (search_policy_aware (reference_store enc dist) vs q d ck pk)).
        \<exists>r \<in> set (contract_collection vs).
          hit_chunk_id h = rec_id r \<and> hit_text h = rec_document r \<and>
          hit_metadata h = rec_metadata r \<and> hit_collection_type h = ''contract'' \<and>
          (\<forall>x. d = Some x \<and> x \<noteq> [] \<longrightarrow> has_doc x r))
   \<and> (\<forall>h \<in> set (policy_chunks (search_policy_aware (reference_store enc dist) vs q d ck pk)).
        \<exists>r \<in> set (policy_collection vs).
          hit_chunk_id h = rec_id r \<and> hit_text h = rec_document r \<and>
          hit_metadata h = rec_metadata r \<and> hit_collection_type h = ''policy'')
   \<and> (\<forall>x. d = Some x \<and> x \<noteq> [] \<longrightarrow>
        contract_chunks (search_policy_aware (reference_store enc dist) vs q d ck pk)
          = search_chunks (reference_store enc dist)
              (vs\<lparr>contract_collection := filter (has_doc x) (contract_collection vs)\<rparr>)
              q None ck ''contract'')
   \<and> (d = None \<or> d = Some [] \<longrightarrow>
        contract_chunks (search_policy_aware (reference_store enc dist) vs q d ck pk)
          = search_chunks (reference_store enc dist) vs q None ck ''contract'')
   \<and> policy_chunks (search_policy_aware (reference_store enc dist) vs q d ck pk)
        = search_chunks (reference_store enc dist) vs q None pk ''policy''"
proof -
  let ?R = "reference_store enc dist"
  have c: "contract_chunks (search_policy_aware ?R vs q d ck pk) = search_chunks ?R vs q d ck ''contract''"
    and p: "policy_chunks (search_policy_aware ?R vs q d ck pk) = search_chunks ?R vs q None pk ''policy''"
    and y: "pa_query (search_policy_aware ?R vs q d ck pk) = q"
    by (simp_all add: search_policy_aware_def Let_def)
  have 1: "\<forall>h \<in> set (search_chunks ?R vs q d ck ''contract'').
        \<exists>r \<in> set (contract_collection vs).
          hit_chunk_id h = rec_id r \<and> hit_text h = rec_document r \<and>
          hit_metadata h = rec_metadata r \<and> hit_collection_type h = ''contract'' \<and>
          (\<forall>x. d = Some x \<and> x \<noteq> [] \<longrightarrow> has_doc x r)"
    using search_hits_from_collection [of _ enc dist vs q d ck "''contract''"]
    by (simp add: select_collection_def)
  have 2: "\<forall>h \<in> set (search_chunks ?R vs q None pk ''policy'').
        \<exists>r \<in> set (policy_collection vs).
          hit_chunk_id h = rec_id r \<and> hit_text h = rec_document r \<and>
          hit_metadata h = rec_metadata r \<and> hit_collection_type h = ''policy''"
    using search_hits_from_collection [of _ enc dist vs q None pk "''policy''"]
    by (simp add: select_collection_def)
  have 3: "\<forall>x. d = Some x \<and> x \<noteq> [] \<longrightarrow>
        search_chunks ?R vs q d ck ''contract''
          = search_chunks ?R (vs\<lparr>contract_collection := filter (has_doc x) (contract_collection vs)\<rparr>)
              q None ck ''contract''"
  proof (intro allI impI)
    fix x assume "d = Some x \<and> x \<noteq> []"
    then have w: "where_clause_of d = Some (where_document_id x)"
      by (simp add: where_clause_of_cases)
    have s: "select_collection (vs\<lparr>contract_collection := filter (has_doc x) (contract_collection vs)\<rparr>)
               ''contract'' = filter (has_doc x) (select_collection vs ''contract'')"
      by (simp add: select_collection_def)
    show "search_chunks ?R vs q d ck ''contract''
          = search_chunks ?R (vs\<lparr>contract_collection := filter (has_doc x) (contract_collection vs)\<rparr>)
              q None ck ''contract''"
      by (simp only: search_chunks_reference w s nearest_filtered where_clause_of_cases)
  qed
  have 4: "d = None \<or> d = Some [] \<longrightarrow>
        search_chunks ?R vs q d ck ''contract'' = search_chunks ?R vs q None ck ''contract''"
    by (auto intro!: search_chunks_where simp: where_clause_of_cases)
  from 1 2 3 4 show ?thesis
    unfolding c p y by (simp add: search_chunks_length)
qed

text \<open>The theorem on the example store, for the document \<^verbatim>\<open>D\<close> and for no document.\<close>

theorem search_policy_aware_two_searches_witness:
  "map hit_chunk_id (contract_chunks
      (search_policy_aware (reference_store example_encode example_dist) example_store
         ''abc'' (Some ''D'') 2 3)) = [''D_chunk_1'', ''D_chunk_0'']
   \<and> map hit_chunk_id (policy_chunks
      (search_policy_aware (reference_store example_encode example_dist) example_store
         ''abc'' (Some ''D'') 2 3)) = [''P_chunk_0'', ''P_chunk_1'']
   \<and> ''D'' \<noteq> []
   \<and> contract_chunks
        (search_policy_aware (reference_store example_encode example_dist) example_store
           ''abc'' (Some ''D'') 2 3)
      = search_chunks (reference_store example_encode example_dist)
          (example_store\<lparr>contract_collection :=
             filter (has_doc ''D'') (contract_collection example_store)\<rparr>)
          ''abc'' None 2 ''contract''
   \<and> contract_chunks
        (search_policy_aware (reference_store example_encode example_dist) example_store
           ''abc'' None 2 3)
      = search_chunks (reference_store example_encode example_dist) example_store
          ''abc'' None 2 ''contract''"
proof -
  note t = search_policy_aware_two_searches
    [of example_encode example_dist example_store "''abc''" "Some ''D''" 2 3]
  note u = search_policy_aware_two_searches
    [of example_encode example_dist example_store "''abc''" None 2 3]
  from t have a: "contract_chunks
        (search_policy_aware (reference_store example_encode example_dist) example_store
           ''abc'' (Some ''D'') 2 3)
      = search_chunks (reference_store example_encode example_dist)
          (example_store\<lparr>contract_collection :=
             filter (has_doc ''D'') (contract_collection example_store)\<rparr>)
          ''abc'' None 2 ''contract''"
    by simp
  from u have b: "contract_chunks
        (search_policy_aware (reference_store example_encode example_dist) example_store
           ''abc'' None 2 3)
      = search_chunks (reference_store example_encode example_dist) example_store
          ''abc'' None 2 ''contract''"
    by simp
  show ?thesis using a b by code_simp
qed


section \<open>Errors of the store\<close>

text \<open>
  C6 (as stated). When a store operation raises, \<open>search_policy_aware\<close> is said to return
  empty contract and policy lists. Each of its two searches absorbs its own error inside
  \<open>search_chunks\<close>, so a failed contract query empties the contract list only: with a
  backend whose query raises for \<open>n_results = 0\<close>, the contract query raises and the policy
  list still holds two results.
\<close>

theorem one_failed_search_leaves_the_other:
  "encode strict_backend ''abc'' = Inr 3
   \<and> coll_query strict_backend (contract_collection example_store) [3] 0 None = Inl StoreError
   \<and> contract_chunks (search_policy_aware strict_backend example_store ''abc'' None 0 3) = []
   \<and> map hit_chunk_id (policy_chunks (search_policy_aware strict_backend example_store ''abc'' None 0 3))
       = [''P_chunk_0'', ''P_chunk_1'']"
  by code_simp

text \<open>
  C6 (amended). No facade operation propagates an error of the backend.
  \<open>_delete_document_chunks\<close> returns \<open>False\<close> and leaves the store as it was when the delete
  raises; \<open>add_document_chunks\<close> returns \<open>False\<close> when the embedding of a chunk raises or
  when the add of the collection raises; \<open>search_chunks\<close> returns the empty list when the
  embedding of the query or the query of the collection raises; in the result of
  \<open>search_policy_aware\<close> the contract list is empty when the contract query raises, the
  policy list is empty when the policy query raises, and both are empty when the embedding
  raises; \<open>list_documents\<close> returns the empty list when a \<open>get\<close> it performs raises.
\<close>

theorem store_errors_are_absorbed:
  "(isl (coll_delete L (select_collection vs t) (where_document_id d)) \<longrightarrow>
      delete_document_chunks L vs d t = (False, vs))
   \<and> (chunks \<noteq> [] \<and> (\<exists>c \<in> set chunks. isl (encode L c)) \<longrightarrow>
        fst (add_document_chunks L vs d n chunks t ct rl pid) = False)
   \<and> (\<forall>entries.
        chunks' \<noteq> [] \<and>
        map_result (chunk_entry L d n t ct rl pid) (enumerate 0 chunks') = Inr entries \<and>
        isl (coll_add L (select_collection (snd (delete_document_chunks L vs d t)) t)
               (map fst entries) (map (fst \<circ> snd) entries) (map (snd \<circ> snd) entries) chunks') \<longrightarrow>
        fst (add_document_chunks L vs d n chunks' t ct rl pid) = False)
   \<and> (isl (encode L q) \<longrightarrow>
        search_chunks L vs q dq k c = []
        \<and> contract_chunks (search_policy_aware L vs q dq ck pk) = []
        \<and> policy_chunks (search_policy_aware L vs q dq ck pk) = [])
   \<and> (\<forall>qe. encode L q' = Inr qe \<and>
             isl (coll_query L (select_collection vs c) [qe] k (where_clause_of dq)) \<longrightarrow>
        search_chunks L vs q' dq k c = [])
   \<and> (\<forall>qe. encode L q' = Inr qe \<and>
             isl (coll_query L (contract_collection vs) [qe] ck (where_clause_of dq)) \<longrightarrow>
        contract_chunks (search_policy_aware L vs q' dq ck pk) = [])
   \<and> (\<forall>qe. encode L q' = Inr qe \<and> isl (coll_query L (policy_collection vs) [qe] pk None) \<longrightarrow>
        policy_chunks (search_policy_aware L vs q' dq ck pk) = [])
   \<and> ((dt = None \<or> dt = Some ''contract'') \<and> isl (coll_get L (contract_collection vs) None) \<longrightarrow>
        list_documents L vs dt = [])
   \<and> ((dt = None \<or> dt = Some ''policy'') \<and> isl (coll_get L (policy_collection vs) None) \<longrightarrow>
        list_documents L vs dt = [])"
proof (intro conjI allI impI)
  show "delete_document_chunks L vs d t = (False, vs)"
    if "isl (coll_delete L (select_collection vs t) (where_document_id d))"
    using that by (rule delete_fails)
  show "fst (add_document_chunks L vs d n chunks t ct rl pid) = False"
    if "chunks \<noteq> [] \<and> (\<exists>c \<in> set chunks. isl (encode L c))"
    using that by (intro add_fails_on_embedding) simp_all
  show "fst (add_document_chunks L vs d n chunks' t ct rl pid) = False"
    if "chunks' \<noteq> [] \<and>
        map_result (chunk_entry L d n t ct rl pid) (enumerate 0 chunks') = Inr entries \<and>
        isl (coll_add L (select_collection (snd (delete_document_chunks L vs d t)) t)
               (map fst entries) (map (fst \<circ> snd) entries) (map (snd \<circ> snd) entries) chunks')"
    for entries
    using that by (intro add_fails_on_add [of _ _ _ _ _ _ _ _ entries]) simp_all
  show "search_chunks L vs q dq k c = []" if "isl (encode L q)"
    using that by (rule search_fails_on_embedding)
  show "contract_chunks (search_policy_aware L vs q dq ck pk) = []" if "isl (encode L q)"
    using that by (simp add: policy_aware_fields search_fails_on_embedding)
  show "policy_chunks (search_policy_aware L vs q dq ck pk) = []" if "isl (encode L q)"
    using that by (simp add: policy_aware_fields search_fails_on_embedding)
  show "search_chunks L vs q' dq k c = []"
    if "encode L q' = Inr qe \<and>
        isl (coll_query L (select_collection vs c) [qe] k (where_clause_of dq))" for qe
    using that by (intro search_fails_on_query [of _ _ qe]) simp_all
  show "contract_chunks (search_policy_aware L vs q' dq ck pk) = []"
    if "encode L q' = Inr qe \<and>
        isl (coll_query L (contract_collection vs) [qe] ck (where_clause_of dq))" for qe
    unfolding policy_aware_fields
    using that by (intro search_fails_on_query [of _ _ qe]) (simp_all add: select_collection_def)
  show "policy_chunks (search_policy_aware L vs q' dq ck pk) = []"
    if "encode L q' = Inr qe \<and> isl (coll_query L (policy_collection vs) [qe] pk None)" for qe
    unfolding policy_aware_fields
    using that
    by (intro search_fails_on_query [of _ _ qe])
       (simp_all add: select_collection_def where_clause_of_cases)
  show "list_documents L vs dt = []"
    if "(dt = None \<or> dt = Some ''contract'') \<and> isl (coll_get L (contract_collection vs) None)"
    using that by (intro list_fails_on_contract) simp_all
  show "list_documents L vs dt = []"
    if "(dt = None \<or> dt = Some ''policy'') \<and> isl (coll_get L (policy_collection vs) None)"
    using that by (intro list_fails_on_policy) simp_all
qed

text \<open>The theorem on a backend whose every collection call raises.\<close>

theorem store_errors_are_absorbed_witness:
  "isl (coll_delete failing_backend (select_collection example_store ''contract'')
          (where_document_id ''D''))
   \<and> delete_document_chunks failing_backend example_store ''D'' ''contract'' = (False, example_store)
   \<and> isl (encode failing_backend '''')
   \<and> fst (add_document_chunks failing_backend example_store ''D'' ''Deal'' [''''] ''contract''
            None None None) = False
   \<and> isl (coll_add failing_backend (contract_collection example_store) [1]
            [chunk_metadata ''D'' ''Deal'' ''contract'' None None None 0 ''x''] [''D_chunk_0''] [''x''])
   \<and> fst (add_document_chunks failing_backend example_store ''D'' ''Deal'' [''x''] ''contract''
            None None None) = False
   \<and> search_chunks failing_backend example_store '''' None 5 ''contract'' = []
   \<and> encode failing_backend ''abc'' = Inr 3
   \<and> isl (coll_query failing_backend (contract_collection example_store) [3] 5 None)
   \<and> search_chunks failing_backend example_store ''abc'' None 5 ''contract'' = []
   \<and> contract_chunks (search_policy_aware failing_backend example_store ''abc'' None 5 3) = []
   \<and> policy_chunks (search_policy_aware failing_backend example_store ''abc'' None 5 3) = []
   \<and> isl (coll_get failing_backend (contract_collection example_store) None)
   \<and> list_documents failing_backend example_store None = []"
proof -
  let ?en = "projr (map_result (chunk_entry failing_backend ''D'' ''Deal'' ''contract'' None None None)
                      (enumerate 0 [''x'']))"
  note t = store_errors_are_absorbed
    [where L = failing_backend and vs = example_store and t = "''contract''" and d = "''D''"
       and chunks = "['''']" and n = "''Deal''" and ct = None and rl = None and pid = None
       and chunks' = "[''x'']" and q = "''''" and dq = None and k = 5 and c = "''contract''"
       and ck = 5 and pk = 3 and q' = "''abc''" and dt = None]
  have h1: "isl (coll_delete failing_backend (select_collection example_store ''contract'')
          (where_document_id ''D''))" by code_simp
  have h2: "[''''] \<noteq> [] \<and> (\<exists>c \<in> set ['''']. isl (encode failing_backend c))" by code_simp
  have h3: "[''x''] \<noteq> [] \<and>
        map_result (chunk_entry failing_backend ''D'' ''Deal'' ''contract'' None None None)
          (enumerate 0 [''x'']) = Inr ?en \<and>
        isl (coll_add failing_backend
               (select_collection
                  (snd (delete_document_chunks failing_backend example_store ''D'' ''contract''))
                  ''contract'')
               (map fst ?en) (map (fst \<circ> snd) ?en) (map (snd \<circ> snd) ?en) [''x''])"
    by code_simp
  have h4: "isl (encode failing_backend '''')" by code_simp
  have h5: "encode failing_backend ''abc'' = Inr 3 \<and>
            isl (coll_query failing_backend (select_collection example_store ''contract'') [3] 5
                   (where_clause_of None))" by code_simp
  have h6: "encode failing_backend ''abc'' = Inr 3 \<and>
            isl (coll_query failing_backend (contract_collection example_store) [3] 5
                   (where_clause_of None))" by code_simp
  have h7: "encode failing_backend ''abc'' = Inr 3 \<and>
            isl (coll_query failing_backend (policy_collection example_store) [3] 3 None)"
    by code_simp
  have h8: "(None = None \<or> None = Some ''contract'') \<and>
            isl (coll_get failing_backend (contract_collection example_store) None)" by code_simp
  from t h1 have r1: "delete_document_chunks failing_backend example_store ''D'' ''contract''
                      = (False, example_store)" by blast
  from t h2 have r2: "fst (add_document_chunks failing_backend example_store ''D'' ''Deal'' ['''']
                        ''contract'' None None None) = False" by blast
  from t h3 have r3: "fst (add_document_chunks failing_backend example_store ''D'' ''Deal'' [''x'']
                        ''contract'' None None None) = False" by blast
  from t h4 have r4: "search_chunks failing_backend example_store '''' None 5 ''contract'' = []"
    by blast
  from t h5 have r5: "search_chunks failing_backend example_store ''abc'' None 5 ''contract'' = []"
    by blast
  from t h6 have r6: "contract_chunks (search_policy_aware failing_backend example_store ''abc''
                        None 5 3) = []" by blast
  from t h7 have r7: "policy_chunks (search_policy_aware failing_backend example_store ''abc''
                        None 5 3) = []" by blast
  from t h8 have r8: "list_documents failing_backend example_store None = []" by blast
  show ?thesis using r1 r2 r3 r4 r5 r6 r7 r8 by code_simp
qed

section \<open>Deleting a document\<close>

text \<open>
  C9. The handler \<open>delete_document\<close> never changes the policy collection, whatever the
  backend does and whatever the type of the document. On the reference store it succeeds
  and the contract collection loses exactly the records whose metadata has the document
  id under \<^verbatim>\<open>document_id\<close>.
\<close>

theorem delete_document_contract_only:
  "policy_collection (snd (delete_document L vs d)) = policy_collection vs
   \<and> fst (delete_document (reference_store enc dist) vs' d)
       = Inr \<lparr>del_success = True, del_message = ''Deleted chunks for document: '' @ d\<rparr>
   \<and> contract_collection (snd (delete_document (reference_store enc dist) vs' d))
       = filter (\<lambda>r. map_of (rec_metadata r) ''document_id'' \<noteq> Some (PStr d))
           (contract_collection vs')
   \<and> filter (\<lambda>r. map_of (rec_metadata r) ''document_id'' = Some (PStr d))
       (contract_collection (snd (delete_document (reference_store enc dist) vs' d)))
       = []
   \<and> policy_collection (snd (delete_document (reference_store enc dist) vs' d))
       = policy_collection vs'"
proof -
  have "snd (delete_document L vs d) = snd (delete_document_chunks L vs d ''contract'')"
    by (simp add: delete_document_def split: prod.splits)
  then have 1: "policy_collection (snd (delete_document L vs d)) = policy_collection vs"
    by (simp add: delete_keeps_policy)
  have 2: "delete_document (reference_store enc dist) vs' d
           = (Inr \<lparr>del_success = True, del_message = ''Deleted chunks for document: '' @ d\<rparr>,
              vs'\<lparr>contract_collection :=
                    filter (\<lambda>r. map_of (rec_metadata r) ''document_id'' \<noteq> Some (PStr d))
                      (contract_collection vs')\<rparr>)"
    by (simp add: delete_document_def delete_reference put_collection_def select_collection_def
        has_doc_iff)
  from 1 show ?thesis by (simp add: 2)
qed

text \<open>
  The theorem on the example store: deleting the contract \<^verbatim>\<open>D\<close> leaves the chunk of \<^verbatim>\<open>E\<close> and
  the policy collection; deleting the policy document \<^verbatim>\<open>P\<close> succeeds and leaves both
  collections as they were, the two chunks of \<^verbatim>\<open>P\<close> included.
\<close>

theorem delete_document_contract_only_witness:
  "map (\<lambda>r. (rec_id r, map_of (rec_metadata r) ''document_id'')) (contract_collection example_store)
     = [(''D_chunk_0'', Some (PStr ''D'')), (''D_chunk_1'', Some (PStr ''D'')),
        (''E_chunk_0'', Some (PStr ''E''))]
   \<and> map rec_id (policy_collection example_store) = [''P_chunk_0'', ''P_chunk_1'']
   \<and> fst (delete_document (reference_store example_encode example_dist) example_store ''D'')
       = Inr \<lparr>del_success = True, del_message = ''Deleted chunks for document: D''\<rparr>
   \<and> map rec_id (contract_collection
        (snd (delete_document (reference_store example_encode example_dist) example_store ''D'')))
       = [''E_chunk_0'']
   \<and> policy_collection
        (snd (delete_document (reference_store example_encode example_dist) example_store ''D''))
       = policy_collection example_store
   \<and> fst (delete_document (reference_store example_encode example_dist) example_store ''P'')
       = Inr \<lparr>del_success = True, del_message = ''Deleted chunks for document: P''\<rparr>
   \<and> snd (delete_document (reference_store example_encode example_dist) example_store ''P'')
       = example_store
   \<and> policy_collection (snd (delete_document failing_backend example_store ''P''))
       = policy_collection example_store"
proof -
  have w: "map (\<lambda>r. (rec_id r, map_of (rec_metadata r) ''document_id'')) (contract_collection example_store)
       = [(''D_chunk_0'', Some (PStr ''D'')), (''D_chunk_1'', Some (PStr ''D'')),
          (''E_chunk_0'', Some (PStr ''E''))]
     \<and> map rec_id (policy_collection example_store) = [''P_chunk_0'', ''P_chunk_1'']
     \<and> fst (delete_document (reference_store example_encode example_dist) example_store ''D'')
         = Inr \<lparr>del_success = True, del_message = ''Deleted chunks for document: D''\<rparr>
     \<and> map rec_id (contract_collection
          (snd (delete_document (reference_store example_encode example_dist) example_store ''D'')))
         = [''E_chunk_0'']
     \<and> policy_collection
          (snd (delete_document (reference_store example_encode example_dist) example_store ''D''))
         = policy_collection example_store
     \<and> fst (delete_document (reference_store example_encode example_dist) example_store ''P'')
         = Inr \<lparr>del_success = True, del_message = ''Deleted chunks for document: P''\<rparr>
     \<and> snd (delete_document (reference_store example_encode example_dist) example_store ''P'')
         = example_store
     \<and> policy_collection (snd (delete_document failing_backend example_store ''P''))
         = policy_collection example_store"
    by code_simp
  from delete_document_contract_only
      [where L = failing_backend and vs = example_store and d = "''D''"
         and enc = example_encode and dist = example_dist and vs' = example_store]
    delete_document_contract_only
      [where L = failing_backend and vs = example_store and d = "''P''"
         and enc = example_encode and dist = example_dist and vs' = example_store]
    w
  show ?thesis by - assumption
qed

section \<open>Collection routing\<close>

text \<open>
  C10. The collection is chosen by comparing with \<^verbatim>\<open>"contract"\<close> only. For any other
  \<open>collection_type\<close>, \<open>search_chunks\<close> returns what the search of the policy collection
  returns (with that type written in the results). For any other \<open>document_type\<close>,
  \<open>add_document_chunks\<close> leaves the contract collection as it was and a successful call
  stores the chunks in the policy collection; unless the type is \<^verbatim>\<open>"policy"\<close> their
  metadata has none of the keys \<^verbatim>\<open>clause_type\<close>, \<^verbatim>\<open>risk_level\<close>, \<^verbatim>\<open>policy_id\<close>.
\<close>

theorem routing_tests_only_contract:
  assumes t: "t \<noteq> ''contract''"
  shows "search_chunks L vs q dq k t
           = map (\<lambda>h. h\<lparr>hit_collection_type := t\<rparr>) (search_chunks L vs q dq k ''policy'')
       \<and> contract_collection (snd (add_document_chunks L vs d n chunks t ct rl pid))
           = contract_collection vs
       \<and> (\<forall>vs1. add_document_chunks (reference_store enc dist) vs0 d n chunks t ct rl pid = (True, vs1) \<longrightarrow>
             map rec_document (filter (has_doc d) (policy_collection vs1)) = chunks
           \<and> (t \<noteq> ''policy'' \<longrightarrow>
                list_all (\<lambda>r. map_of (rec_metadata r) ''clause_type'' = None
                            \<and> map_of (rec_metadata r) ''risk_level'' = None
                            \<and> map_of (rec_metadata r) ''policy_id'' = None)
                  (filter (has_doc d) (policy_collection vs1))))"
proof (intro conjI allI impI)
  show "search_chunks L vs q dq k t
           = map (\<lambda>h. h\<lparr>hit_collection_type := t\<rparr>) (search_chunks L vs q dq k ''policy'')"
    by (rule search_chunks_other_type [OF t])
  show "contract_collection (snd (add_document_chunks L vs d n chunks t ct rl pid))
           = contract_collection vs"
    by (rule add_keeps_contract [OF t])
next
  fix vs1
  assume ok: "add_document_chunks (reference_store enc dist) vs0 d n chunks t ct rl pid = (True, vs1)"
  from t have s: "select_collection vs1 t = policy_collection vs1"
    by (simp add: select_collection_def)
  from added_records [OF ok] have
    ds: "map rec_document (filter (has_doc d) (policy_collection vs1)) = chunks" and
    ms: "map rec_metadata (filter (has_doc d) (policy_collection vs1))
           = map (\<lambda>(i, c). chunk_metadata d n t ct rl pid i c) (enumerate 0 chunks)"
    by (simp_all add: s)
  from ds show "map rec_document (filter (has_doc d) (policy_collection vs1)) = chunks" .
  assume np: "t \<noteq> ''policy''"
  show "list_all (\<lambda>r. map_of (rec_metadata r) ''clause_type'' = None
                            \<and> map_of (rec_metadata r) ''risk_level'' = None
                            \<and> map_of (rec_metadata r) ''policy_id'' = None)
                  (filter (has_doc d) (policy_collection vs1))"
    unfolding list_all_iff
  proof
    fix r assume "r \<in> set (filter (has_doc d) (policy_collection vs1))"
    then have "rec_metadata r \<in> set (map rec_metadata (filter (has_doc d) (policy_collection vs1)))"
      by (simp only: set_map) (rule imageI)
    then obtain i c where "rec_metadata r = chunk_metadata d n t ct rl pid i c"
      unfolding ms by auto
    with np show "map_of (rec_metadata r) ''clause_type'' = None
                \<and> map_of (rec_metadata r) ''risk_level'' = None
                \<and> map_of (rec_metadata r) ''policy_id'' = None"
      by (simp add: other_chunk_metadata)
  qed
qed

text \<open>The theorem for the type \<^verbatim>\<open>memo\<close> on the example store.\<close>

theorem routing_tests_only_contract_witness:
  "''memo'' \<noteq> ''contract''
   \<and> map (\<lambda>h. (hit_chunk_id h, hit_collection_type h))
        (search_chunks (reference_store example_encode example_dist) example_store ''abc'' None 1 ''memo'')
       = [(''P_chunk_0'', ''memo'')]
   \<and> (let r = add_document_chunks (reference_store example_encode example_dist) example_store
                 ''M'' ''Memo'' [''mm''] ''memo'' (Some ''x'') None None
      in fst r
       \<and> contract_collection (snd r) = contract_collection example_store
       \<and> map rec_id (policy_collection (snd r)) = [''P_chunk_0'', ''P_chunk_1'', ''M_chunk_0'']
       \<and> map rec_document (filter (has_doc ''M'') (policy_collection (snd r))) = [''mm'']
       \<and> map (\<lambda>r. map_of (rec_metadata r) ''clause_type'')
            (filter (has_doc ''M'') (policy_collection (snd r))) = [None])"
proof -
  let ?R = "reference_store example_encode example_dist"
  let ?r = "add_document_chunks ?R example_store ''M'' ''Memo'' [''mm''] ''memo'' (Some ''x'') None None"
  have h: "''memo'' \<noteq> ''contract''" by simp
  have np: "''memo'' \<noteq> ''policy''" by simp
  have ok: "?r = (True, snd ?r)" by code_simp
  note t = routing_tests_only_contract
    [OF h, of ?R example_store "''abc''" None 1 "''M''" "''Memo''" "[''mm'']" "Some ''x''" None None
       example_encode example_dist example_store]
  from t have a: "search_chunks ?R example_store ''abc'' None 1 ''memo''
           = map (\<lambda>h. h\<lparr>hit_collection_type := ''memo''\<rparr>)
               (search_chunks ?R example_store ''abc'' None 1 ''policy'')"
    by (rule conjunct1)
  from t have b: "contract_collection (snd ?r) = contract_collection example_store"
    by blast
  from t ok np have c: "list_all (\<lambda>r. map_of (rec_metadata r) ''clause_type'' = None
                            \<and> map_of (rec_metadata r) ''risk_level'' = None
                            \<and> map_of (rec_metadata r) ''policy_id'' = None)
                  (filter (has_doc ''M'') (policy_collection (snd ?r)))"
    by blast
  show ?thesis using a b c by code_simp
qed

section \<open>Listing documents\<close>

text \<open>
  C8 (as stated). The list is said to hold one entry per distinct document id across both
  collections. Each collection is grouped on its own and the two lists are concatenated:
  a document id stored in both collections is listed twice, each entry counting the chunks
  of its own collection.
\<close>

theorem same_id_in_both_collections_listed_twice:
  "(let vs = snd (add_document_chunks example_backend
                    (snd (add_document_chunks example_backend empty_store
                            ''D'' ''Deal'' [''a'', ''bb''] ''contract'' None None None))
                    ''D'' ''Deal'' [''ccc''] ''policy'' None None None)
    in map rec_id (contract_collection vs) = [''D_chunk_0'', ''D_chunk_1'']
     \<and> map rec_id (policy_collection vs) = [''D_chunk_0'']
     \<and> map (\<lambda>s. (sum_document_id s, sum_document_type s, sum_chunk_count s))
          (list_documents example_backend vs None)
        = [(PStr ''D'', ''contract'', 2), (PStr ''D'', ''policy'', 1)])"
  by code_simp

lemma summary_without_policy_fields:
  assumes "s \<in> set (group_documents_by_id res t)" and "t \<noteq> ''policy''"
  shows "sum_clause_type s = None \<and> sum_risk_level s = None \<and> sum_policy_id s = None"
proof -
  from group_documents_properties [of res t] assms(1) obtain m where
    e: "s = (seed_summary m t)\<lparr>sum_chunk_count :=
              int (length (filter (\<lambda>m. md_get m ''document_id'' = sum_document_id s)
                             (gr_metadatas res)))\<rparr>"
    by blast
  from assms(2) show ?thesis
    by (subst (1 2 3) e) (simp add: seed_summary_def Let_def)
qed

lemma collection_summaries:
  "list_documents (reference_store enc dist) vs None
     = group_documents_by_id (all_records (contract_collection vs)) ''contract''
       @ group_documents_by_id (all_records (policy_collection vs)) ''policy''
   \<and> distinct (map sum_document_id (group_documents_by_id (all_records c) t))
   \<and> set (map sum_document_id (group_documents_by_id (all_records c) t))
       = (\<lambda>r. md_get (rec_metadata r) ''document_id'') ` set c
   \<and> (\<forall>s \<in> set (group_documents_by_id (all_records c) t).
        sum_document_type s = t
        \<and> sum_chunk_count s
            = int (length (filter (\<lambda>r. md_get (rec_metadata r) ''document_id'' = sum_document_id s) c))
        \<and> (\<exists>r. find (\<lambda>r. md_get (rec_metadata r) ''document_id'' = sum_document_id s) c = Some r
              \<and> sum_document_name s = md_get (rec_metadata r) ''document_name''
              \<and> (t = ''policy'' \<longrightarrow>
                   sum_clause_type s
                     = Some (md_get_default (rec_metadata r) ''clause_type'' (PStr ''general''))
                 \<and> sum_risk_level s
                     = Some (md_get_default (rec_metadata r) ''risk_level'' (PStr ''medium''))
                 \<and> sum_policy_id s
                     = Some (md_get_default (rec_metadata r) ''policy_id'' (sum_document_id s)))))"
proof -
  let ?res = "all_records c"
  have ms: "gr_metadatas ?res = map rec_metadata c" by (simp add: all_records_def)
  note g = group_documents_properties [of ?res t, unfolded ms]
  have 1: "list_documents (reference_store enc dist) vs None
     = group_documents_by_id (all_records (contract_collection vs)) ''contract''
       @ group_documents_by_id (all_records (policy_collection vs)) ''policy''"
    by (simp add: list_documents_def list_collection_reference)
  from g have 2: "distinct (map sum_document_id (group_documents_by_id ?res t))" by blast
  from g have "set (map sum_document_id (group_documents_by_id ?res t))
       = (\<lambda>m. md_get m ''document_id'') ` set (map rec_metadata c)" by blast
  then have 3: "set (map sum_document_id (group_documents_by_id ?res t))
       = (\<lambda>r. md_get (rec_metadata r) ''document_id'') ` set c"
    by (simp add: image_image)
  have 4: "\<forall>s \<in> set (group_documents_by_id ?res t).
        sum_document_type s = t
        \<and> sum_chunk_count s
            = int (length (filter (\<lambda>r. md_get (rec_metadata r) ''document_id'' = sum_document_id s) c))
        \<and> (\<exists>r. find (\<lambda>r. md_get (rec_metadata r) ''document_id'' = sum_document_id s) c = Some r
              \<and> sum_document_name s = md_get (rec_metadata r) ''document_name''
              \<and> (t = ''policy'' \<longrightarrow>
                   sum_clause_type s
                     = Some (md_get_default (rec_metadata r) ''clause_type'' (PStr ''general''))
                 \<and> sum_risk_level s
                     = Some (md_get_default (rec_metadata r) ''risk_level'' (PStr ''medium''))
                 \<and> sum_policy_id s
                     = Some (md_get_default (rec_metadata r) ''policy_id'' (sum_document_id s))))"
  proof (rule ballI)
    fix s assume s: "s \<in> set (group_documents_by_id ?res t)"
    let ?k = "sum_document_id s"
    from g s obtain m where
      f: "find (\<lambda>m. md_get m ''document_id'' = ?k) (map rec_metadata c) = Some m" and
      e: "s = (seed_summary m t)\<lparr>sum_chunk_count :=
                int (length (filter (\<lambda>m. md_get m ''document_id'' = ?k) (map rec_metadata c)))\<rparr>"
      by blast
    from f obtain r where
      r: "find (\<lambda>r. md_get (rec_metadata r) ''document_id'' = ?k) c = Some r" and
      m: "m = rec_metadata r"
      by (auto simp: find_map_list)
    from r have key: "md_get (rec_metadata r) ''document_id'' = ?k" by (auto simp: find_Some_iff)
    have ty: "sum_document_type s = t"
      by (subst e) (simp add: seed_summary_def Let_def)
    have cnt: "sum_chunk_count s
              = int (length (filter (\<lambda>r. md_get (rec_metadata r) ''document_id'' = ?k) c))"
      by (subst e) (simp add: o_def)
    have nm: "sum_document_name s = md_get (rec_metadata r) ''document_name''"
      by (subst e) (simp add: seed_summary_def Let_def m)
    have pol: "t = ''policy'' \<longrightarrow>
                     sum_clause_type s
                       = Some (md_get_default (rec_metadata r) ''clause_type'' (PStr ''general''))
                   \<and> sum_risk_level s
                       = Some (md_get_default (rec_metadata r) ''risk_level'' (PStr ''medium''))
                   \<and> sum_policy_id s
                       = Some (md_get_default (rec_metadata r) ''policy_id'' ?k)"
      by (subst (1 2 3) e) (simp add: seed_summary_def Let_def m key)
    from ty cnt r nm pol show "sum_document_type s = t
          \<and> sum_chunk_count s
              = int (length (filter (\<lambda>r. md_get (rec_metadata r) ''document_id'' = ?k) c))
          \<and> (\<exists>r. find (\<lambda>r. md_get (rec_metadata r) ''document_id'' = ?k) c = Some r
                \<and> sum_document_name s = md_get (rec_metadata r) ''document_name''
                \<and> (t = ''policy'' \<longrightarrow>
                     sum_clause_type s
                       = Some (md_get_default (rec_metadata r) ''clause_type'' (PStr ''general''))
                   \<and> sum_risk_level s
                       = Some (md_get_default (rec_metadata r) ''risk_level'' (PStr ''medium''))
                   \<and> sum_policy_id s
                       = Some (md_get_default (rec_metadata r) ''policy_id'' ?k)))"
      by blast
  qed
  from 1 2 3 4 show ?thesis by (intro conjI)
qed

text \<open>
  C8 (amended). \<open>list_documents\<close> returns the summaries of the contract collection followed
  by those of the policy collection. The summaries of a collection have distinct document
  ids, one for every document id stored in that collection (the value under
  \<^verbatim>\<open>document_id\<close> in the metadata of a record, \<^verbatim>\<open>None\<close> when the key is missing); the
  \<open>chunk_count\<close> of a summary is the number of records of that collection with its
  document id; its name is the value stored under \<^verbatim>\<open>document_name\<close> in the first record
  with that document id. For the policy collection the summary has \<^verbatim>\<open>clause_type\<close>,
  \<^verbatim>\<open>risk_level\<close> and \<^verbatim>\<open>policy_id\<close>, each the value stored in that first record, or
  \<^verbatim>\<open>general\<close>, \<^verbatim>\<open>medium\<close> and the document id when that record has no such key; for the
  contract collection the summary has none of the three.
\<close>

theorem list_documents_groups_each_collection:
  "list_documents (reference_store enc dist) vs None
     = group_documents_by_id (all_records (contract_collection vs)) ''contract''
       @ group_documents_by_id (all_records (policy_collection vs)) ''policy''
   \<and> distinct (map sum_document_id (group_documents_by_id (all_records c) t))
   \<and> set (map sum_document_id (group_documents_by_id (all_records c) t))
       = (\<lambda>r. stored_or (rec_metadata r) ''document_id'' PNone) ` set c
   \<and> (\<forall>s \<in> set (group_documents_by_id (all_records c) t).
        sum_document_type s = t
        \<and> sum_chunk_count s
            = int (length (filter (\<lambda>r. stored_or (rec_metadata r) ''document_id'' PNone
                                         = sum_document_id s) c))
        \<and> (\<exists>r. find (\<lambda>r. stored_or (rec_metadata r) ''document_id'' PNone = sum_document_id s) c
                  = Some r
              \<and> sum_document_name s = stored_or (rec_metadata r) ''document_name'' PNone
              \<and> (t = ''policy'' \<longrightarrow>
                   sum_clause_type s
                     = Some (stored_or (rec_metadata r) ''clause_type'' (PStr ''general''))
                 \<and> sum_risk_level s
                     = Some (stored_or (rec_metadata r) ''risk_level'' (PStr ''medium''))
                 \<and> sum_policy_id s
                     = Some (stored_or (rec_metadata r) ''policy_id'' (sum_document_id s))))
        \<and> (t \<noteq> ''policy'' \<longrightarrow>
             sum_clause_type s = None \<and> sum_risk_level s = None \<and> sum_policy_id s = None))"
proof -
  note h = collection_summaries [of enc dist vs c t, unfolded md_get_def md_get_default_def]
  from h have 1: "list_documents (reference_store enc dist) vs None
     = group_documents_by_id (all_records (contract_collection vs)) ''contract''
       @ group_documents_by_id (all_records (policy_collection vs)) ''policy''"
    by (rule conjunct1)
  from h have 2: "distinct (map sum_document_id (group_documents_by_id (all_records c) t))"
    by (rule conjunct2 [THEN conjunct1])
  from h have 3: "set (map sum_document_id (group_documents_by_id (all_records c) t))
       = (\<lambda>r. stored_or (rec_metadata r) ''document_id'' PNone) ` set c"
    by (rule conjunct2 [THEN conjunct2, THEN conjunct1])
  note b = h [THEN conjunct2, THEN conjunct2, THEN conjunct2]
  have 4: "\<forall>s \<in> set (group_documents_by_id (all_records c) t).
        sum_document_type s = t
        \<and> sum_chunk_count s
            = int (length (filter (\<lambda>r. stored_or (rec_metadata r) ''document_id'' PNone
                                         = sum_document_id s) c))
        \<and> (\<exists>r. find (\<lambda>r. stored_or (rec_metadata r) ''document_id'' PNone = sum_document_id s) c
                  = Some r
              \<and> sum_document_name s = stored_or (rec_metadata r) ''document_name'' PNone
              \<and> (t = ''policy'' \<longrightarrow>
                   sum_clause_type s
                     = Some (stored_or (rec_metadata r) ''clause_type'' (PStr ''general''))
                 \<and> sum_risk_level s
                     = Some (stored_or (rec_metadata r) ''risk_level'' (PStr ''medium''))
                 \<and> sum_policy_id s
                     = Some (stored_or (rec_metadata r) ''policy_id'' (sum_document_id s))))
        \<and> (t \<noteq> ''policy'' \<longrightarrow>
             sum_clause_type s = None \<and> sum_risk_level s = None \<and> sum_policy_id s = None)"
  proof (rule ballI)
    fix s assume s: "s \<in> set (group_documents_by_id (all_records c) t)"
    from b [rule_format, OF s] summary_without_policy_fields [OF s]
    show "sum_document_type s = t
        \<and> sum_chunk_count s
            = int (length (filter (\<lambda>r. stored_or (rec_metadata r) ''document_id'' PNone
                                         = sum_document_id s) c))
        \<and> (\<exists>r. find (\<lambda>r. stored_or (rec_metadata r) ''document_id'' PNone = sum_document_id s) c
                  = Some r
              \<and> sum_document_name s = stored_or (rec_metadata r) ''document_name'' PNone
              \<and> (t = ''policy'' \<longrightarrow>
                   sum_clause_type s
                     = Some (stored_or (rec_metadata r) ''clause_type'' (PStr ''general''))
                 \<and> sum_risk_level s
                     = Some (stored_or (rec_metadata r) ''risk_level'' (PStr ''medium''))
                 \<and> sum_policy_id s
                     = Some (stored_or (rec_metadata r) ''policy_id'' (sum_document_id s))))
        \<and> (t \<noteq> ''policy'' \<longrightarrow>
             sum_clause_type s = None \<and> sum_risk_level s = None \<and> sum_policy_id s = None)"
      by blast
  qed
  from 1 2 3 4 show ?thesis by (intro conjI)
qed

text \<open>
  The theorem on a store whose policy collection holds a document with supplied policy
  values and a document stored without them, and on two records of one document whose
  values disagree: the summary has those of the first.
\<close>

theorem list_documents_groups_each_collection_witness:
  "map (\<lambda>s. (sum_document_id s, sum_document_type s, sum_chunk_count s,
             sum_clause_type s, sum_risk_level s, sum_policy_id s))
     (list_documents (reference_store example_encode example_dist) supplied_store None)
     = [(PStr ''D'', ''contract'', 2, None, None, None),
        (PStr ''E'', ''contract'', 1, None, None, None),
        (PStr ''P'', ''policy'', 2, Some (PStr ''general''), Some (PStr ''medium''), Some (PStr ''P'')),
        (PStr ''Q'', ''policy'', 2, Some (PStr ''liability''), Some (PStr ''high''),
           Some (PStr ''POL-7'')),
        (PStr ''M'', ''policy'', 1, Some (PStr ''general''), Some (PStr ''medium''), Some (PStr ''M''))]
   \<and> map (\<lambda>r. map_of (rec_metadata r) ''clause_type'') (policy_collection supplied_store)
       = [Some (PStr ''general''), Some (PStr ''general''), Some (PStr ''liability''),
          Some (PStr ''liability''), None]
   \<and> map (\<lambda>r. map_of (rec_metadata r) ''clause_type'') disagreeing_records
       = [Some (PStr ''liability''), Some (PStr ''termination'')]
   \<and> map (\<lambda>s. (sum_document_id s, sum_document_name s, sum_document_type s, sum_chunk_count s,
                sum_clause_type s, sum_risk_level s, sum_policy_id s))
        (group_documents_by_id (all_records disagreeing_records) ''policy'')
       = [(PStr ''Q'', PStr ''Quality'', ''policy'', 2, Some (PStr ''liability''),
           Some (PStr ''high''), Some (PStr ''POL-7''))]
   \<and> map (\<lambda>s. (sum_document_id s, sum_chunk_count s, sum_clause_type s))
        (group_documents_by_id (all_records disagreeing_records) ''contract'')
       = [(PStr ''Q'', 2, None)]"
proof -
  let ?g = "group_documents_by_id (all_records disagreeing_records) ''policy''"
  let ?s = "hd ?g"
  let ?gc = "group_documents_by_id (all_records disagreeing_records) ''contract''"
  let ?sc = "hd ?gc"
  note t = list_documents_groups_each_collection
    [of example_encode example_dist supplied_store disagreeing_records "''policy''"]
  note u = list_documents_groups_each_collection
    [of example_encode example_dist supplied_store disagreeing_records "''contract''"]
  from t have a: "list_documents (reference_store example_encode example_dist) supplied_store None
     = group_documents_by_id (all_records (contract_collection supplied_store)) ''contract''
       @ group_documents_by_id (all_records (policy_collection supplied_store)) ''policy''"
    by (rule conjunct1)
  have mem: "?s \<in> set ?g" by code_simp
  have memc: "?sc \<in> set ?gc" by code_simp
  have fr: "find (\<lambda>r. stored_or (rec_metadata r) ''document_id'' PNone = sum_document_id ?s)
              disagreeing_records = Some (hd disagreeing_records)"
    by code_simp
  from t mem have b: "sum_chunk_count ?s
      = int (length (filter (\<lambda>r. stored_or (rec_metadata r) ''document_id'' PNone
                                    = sum_document_id ?s) disagreeing_records))"
    by blast
  from t mem obtain r where
    "find (\<lambda>r. stored_or (rec_metadata r) ''document_id'' PNone = sum_document_id ?s)
       disagreeing_records = Some r" and
    "''policy'' = ''policy'' \<longrightarrow>
       sum_clause_type ?s = Some (stored_or (rec_metadata r) ''clause_type'' (PStr ''general''))
     \<and> sum_risk_level ?s = Some (stored_or (rec_metadata r) ''risk_level'' (PStr ''medium''))
     \<and> sum_policy_id ?s = Some (stored_or (rec_metadata r) ''policy_id'' (sum_document_id ?s))"
    by blast
  with fr have c:
    "sum_clause_type ?s
       = Some (stored_or (rec_metadata (hd disagreeing_records)) ''clause_type'' (PStr ''general''))"
    "sum_risk_level ?s
       = Some (stored_or (rec_metadata (hd disagreeing_records)) ''risk_level'' (PStr ''medium''))"
    "sum_policy_id ?s
       = Some (stored_or (rec_metadata (hd disagreeing_records)) ''policy_id'' (sum_document_id ?s))"
    by simp_all
  have np: "''contract'' \<noteq> ''policy''" by simp
  from u memc np have d: "sum_clause_type ?sc = None" by blast
  show ?thesis using a b c d by code_simp
qed

end
